theory Spec2Isabelle
  imports Complex_Main
begin

section \<open>Python values and the library functions the program calls\<close>

text \<open>
  A Python float is a finite value, an infinity or a NaN. Every finite float is a
  rational number, and Python compares an int with a float exactly, so the finite
  values are modelled as rationals: a statement about every rational covers every float.
\<close>

datatype pyfloat = Finite rat | PosInf | NegInf | NaN

text \<open>The comparison \<^verbatim>\<open>a <= b\<close> of Python: false as soon as one side is a NaN.\<close>

fun float_le :: "pyfloat \<Rightarrow> pyfloat \<Rightarrow> bool" where
  "float_le NaN _ = False"
| "float_le _ NaN = False"
| "float_le NegInf _ = True"
| "float_le _ PosInf = True"
| "float_le (Finite a) (Finite b) = (a \<le> b)"
| "float_le _ _ = False"

text \<open>The comparison \<^verbatim>\<open>a < b\<close>, used to state what lies outside a range.\<close>

fun float_lt :: "pyfloat \<Rightarrow> pyfloat \<Rightarrow> bool" where
  "float_lt NaN _ = False"
| "float_lt _ NaN = False"
| "float_lt (Finite a) (Finite b) = (a < b)"
| "float_lt NegInf NegInf = False"
| "float_lt NegInf _ = True"
| "float_lt PosInf _ = False"
| "float_lt (Finite a) PosInf = True"
| "float_lt (Finite a) NegInf = False"

text \<open>The bounds of \<^verbatim>\<open>FIELD_RANGES\<close> are int literals, but for one float literal.\<close>

datatype pynum = PyInt int | PyFloat pyfloat

fun num_val :: "pynum \<Rightarrow> pyfloat" where
  "num_val (PyInt i) = Finite (of_int i)"
| "num_val (PyFloat f) = f"

datatype pyval = VFloat pyfloat | VInt int | VStr string

text \<open>
  A \<^verbatim>\<open>dict\<close> keeps its keys in insertion order: an association list with unique keys.
  Assigning to a key that is present replaces its value in place, a new key goes last.
\<close>

type_synonym pydict = "(string \<times> pyval) list"

fun dict_set :: "pydict \<Rightarrow> string \<Rightarrow> pyval \<Rightarrow> pydict" where
  "dict_set [] k v = [(k, v)]"
| "dict_set ((k', v') # d) k v =
     (if k' = k then (k, v) # d else (k', v') # dict_set d k v)"

datatype exn =
    ValueError string
  | KeyError string
  | IndexError string
  | OSError string
  | OtherError string

text \<open>
  The functions of the Python library and of its packages that the program calls and
  whose results depend on more than this program: they are parameters of the model.
  \<^item> \<open>py_float\<close>: \<^verbatim>\<open>float(s)\<close> on a string, \<open>None\<close> when it raises \<^verbatim>\<open>ValueError\<close>;
  \<^item> \<open>repr_str\<close>: \<^verbatim>\<open>repr(s)\<close> of a string, as the message of that error quotes it;
  \<^item> \<open>str_float\<close>: \<^verbatim>\<open>str(x)\<close> of a float;
  \<^item> \<open>str_dict\<close>: \<^verbatim>\<open>str(d)\<close> of a dict;
  \<^item> \<open>str_set\<close>: \<^verbatim>\<open>str(s)\<close> of a set of strings (its order is not determined);
  \<^item> \<open>sha256_hexdigest\<close>: \<^verbatim>\<open>hashlib.sha256(s.encode()).hexdigest()\<close>.
\<close>

record pylib =
  py_float :: "string \<Rightarrow> pyfloat option"
  repr_str :: "string \<Rightarrow> string"
  str_float :: "pyfloat \<Rightarrow> string"
  str_dict :: "pydict \<Rightarrow> string"
  str_set :: "string set \<Rightarrow> string"
  sha256_hexdigest :: "string \<Rightarrow> string"

text \<open>\<^verbatim>\<open>str(i)\<close> of an int: its decimal digits.\<close>

fun str_nat :: "nat \<Rightarrow> string" where
  "str_nat n =
     (if n < 10 then [''0123456789'' ! n]
      else str_nat (n div 10) @ [''0123456789'' ! (n mod 10)])"

declare str_nat.simps [simp del]

definition str_int :: "int \<Rightarrow> string" where
  "str_int i = (if i < 0 then ''-'' @ str_nat (nat (- i)) else str_nat (nat i))"

fun str_num :: "pylib \<Rightarrow> pynum \<Rightarrow> string" where
  "str_num L (PyInt i) = str_int i"
| "str_num L (PyFloat f) = str_float L f"

fun str_exn :: "pylib \<Rightarrow> exn \<Rightarrow> string" where
  "str_exn L (ValueError m) = m"
| "str_exn L (KeyError k) = repr_str L k"
| "str_exn L (IndexError m) = m"
| "str_exn L (OSError m) = m"
| "str_exn L (OtherError m) = m"

section \<open>The form validator\<close>

definition FIELD_RANGES :: "(string \<times> pynum \<times> pynum) list" where
  "FIELD_RANGES =
    [(''Pregnancies'', PyInt 0, PyInt 20),
     (''Glucose'', PyInt 0, PyInt 300),
     (''Blood Pressure'', PyInt 0, PyInt 200),
     (''Skin Thickness'', PyInt 0, PyInt 100),
     (''Insulin'', PyInt 0, PyInt 850),
     (''BMI'', PyInt 0, PyInt 70),
     (''Diabetes Pedigree'', PyInt 0, PyFloat (Finite (5 / 2))),
     (''Age'', PyInt 0, PyInt 120)]"

definition field_names :: "string list" where
  "field_names = map fst FIELD_RANGES"

text \<open>The message of the \<^verbatim>\<open>ValueError\<close> raised for a value outside its range.\<close>

definition range_message :: "pylib \<Rightarrow> string \<Rightarrow> pynum \<Rightarrow> pynum \<Rightarrow> string" where
  "range_message L field min_val max_val =
     field @ '' must be between '' @ str_num L min_val @ '' and '' @ str_num L max_val"

text \<open>The message of the \<^verbatim>\<open>ValueError\<close> that \<^verbatim>\<open>float\<close> raises on a string.\<close>

definition parse_message :: "pylib \<Rightarrow> string \<Rightarrow> string" where
  "parse_message L s = ''could not convert string to float: '' @ repr_str L s"

text \<open>The \<^verbatim>\<open>try\<close> block of the loop body of \<^verbatim>\<open>validate_inputs\<close>, for one field.\<close>

definition field_try :: "pylib \<Rightarrow> string \<Rightarrow> string \<Rightarrow> exn + pyfloat" where
  "field_try L field s =
     (case py_float L s of
        None \<Rightarrow> Inl (ValueError (parse_message L s))
      | Some val \<Rightarrow>
          (case map_of FIELD_RANGES field of
             None \<Rightarrow> Inl (KeyError field)
           | Some (min_val, max_val) \<Rightarrow>
               if \<not> (float_le (num_val min_val) val \<and> float_le val (num_val max_val))
               then Inl (ValueError (range_message L field min_val max_val))
               else Inr val))"

text \<open>The loop body with its \<^verbatim>\<open>except ValueError\<close> clause, which raises a new
  \<^verbatim>\<open>ValueError\<close> whose message starts with the field.\<close>

definition field_step :: "pylib \<Rightarrow> string \<Rightarrow> string \<Rightarrow> exn + pyfloat" where
  "field_step L field s =
     (case field_try L field s of
        Inl (ValueError m) \<Rightarrow> Inl (ValueError (''Invalid '' @ field @ '': '' @ m))
      | Inl e \<Rightarrow> Inl e
      | Inr val \<Rightarrow> Inr val)"

fun validate_loop :: "pylib \<Rightarrow> (string \<times> string) list \<Rightarrow> pydict \<Rightarrow> exn + pydict" where
  "validate_loop L [] vals = Inr vals"
| "validate_loop L ((field, var) # rest) vals =
     (case field_step L field var of
        Inl e \<Rightarrow> Inl e
      | Inr val \<Rightarrow> validate_loop L rest (dict_set vals field (VFloat val)))"

text \<open>\<^verbatim>\<open>validate_inputs\<close> reads the global \<^verbatim>\<open>entry_vars\<close>, here its argument: the
  texts of the form's entries, in the order of the fields.\<close>

definition validate_inputs :: "pylib \<Rightarrow> string list \<Rightarrow> exn + pydict" where
  "validate_inputs L entry_vars = validate_loop L (zip field_names entry_vars) []"

subsection \<open>Predicates for stating the properties of the validator\<close>

text \<open>The range test of the loop body, \<^verbatim>\<open>min_val <= value <= max_val\<close>.\<close>

definition in_range :: "pynum \<Rightarrow> pynum \<Rightarrow> pyfloat \<Rightarrow> bool" where
  "in_range min_val max_val v = (float_le (num_val min_val) v \<and> float_le v (num_val max_val))"

text \<open>The loop body returns for a pair of a field and an entry text, rather than raising.\<close>

definition step_ok :: "pylib \<Rightarrow> string \<times> string \<Rightarrow> bool" where
  "step_ok L p = (case field_step L (fst p) (snd p) of Inl _ \<Rightarrow> False | Inr _ \<Rightarrow> True)"

text \<open>The entry that the loop body stores for a pair it accepts.\<close>

definition step_entry :: "pylib \<Rightarrow> string \<times> string \<Rightarrow> string \<times> pyval" where
  "step_entry L p =
     (fst p, VFloat (case field_step L (fst p) (snd p) of Inl _ \<Rightarrow> NaN | Inr v \<Rightarrow> v))"

text \<open>An entry text parses as a float and the value lies within the bounds of the field.\<close>

definition entry_valid :: "pylib \<Rightarrow> string \<times> pynum \<times> pynum \<Rightarrow> string \<Rightarrow> bool" where
  "entry_valid L fr s =
     (case py_float L s of
        None \<Rightarrow> False
      | Some v \<Rightarrow> in_range (fst (snd fr)) (snd (snd fr)) v)"

section \<open>The predictor and the result recorder\<close>

text \<open>
  What the program shows: a message box (its title and its text), or the window of
  \<^verbatim>\<open>show_prediction_result\<close> with the outcome, the probability and the values.
\<close>

datatype dialog =
    ShowError string string
  | ShowInfo string string
  | ResultWindow string pyfloat pydict

datatype log_record = LogInfo string | LogError string

text \<open>
  The state outside the program's variables:
  \<^item> \<open>files\<close>: the CSV files by path, each a list of rows of cells, \<open>None\<close> where no file
    exists; a header row holds the column names;
  \<^item> \<open>write_error\<close>: the message of the \<^verbatim>\<open>OSError\<close> that writing at a path raises, if
    it does;
  \<^item> \<open>left_behind\<close>: what a write that fails leaves at the path: no file, the file as it
    was, or a file that holds a part of the text (the file is opened, and created, before
    the rows are written);
  \<^item> \<open>shown\<close>: the message boxes and windows shown so far, oldest first;
  \<^item> \<open>logged\<close>: the records written to the log, oldest first;
  \<^item> \<open>predict_calls\<close>: how many times \<^verbatim>\<open>model.predict\<close> and
    \<^verbatim>\<open>model.predict_proba\<close> have been called.
\<close>

record world =
  files :: "string \<Rightarrow> pyval list list option"
  write_error :: "string \<Rightarrow> string option"
  left_behind :: "string \<Rightarrow> pyval list list option"
  shown :: "dialog list"
  logged :: "log_record list"
  predict_calls :: nat

definition show_dialog :: "dialog \<Rightarrow> world \<Rightarrow> world" where
  "show_dialog d W = W\<lparr>shown := shown W @ [d]\<rparr>"

definition log_write :: "log_record \<Rightarrow> world \<Rightarrow> world" where
  "log_write r W = W\<lparr>logged := logged W @ [r]\<rparr>"

text \<open>
  The classifier that \<^verbatim>\<open>joblib.load\<close> returns: its two operations on a matrix of
  feature rows. Each returns one entry per row, or raises.
\<close>

record model =
  predict :: "pyval list list \<Rightarrow> exn + int list"
  predict_proba :: "pyval list list \<Rightarrow> exn + pyfloat list list"

text \<open>Indexing \<^verbatim>\<open>a[i]\<close> with an index that is not negative.\<close>

definition index :: "'a list \<Rightarrow> nat \<Rightarrow> exn + 'a" where
  "index xs i =
     (if i < length xs then Inr (xs ! i)
      else Inl (IndexError (''index '' @ str_nat i @ '' is out of bounds for axis 0 with size ''
                  @ str_nat (length xs))))"

text \<open>\<^verbatim>\<open>[values[field] for field in fields]\<close>: a missing key raises \<^verbatim>\<open>KeyError\<close>.\<close>

fun lookup_all :: "pydict \<Rightarrow> string list \<Rightarrow> exn + pyval list" where
  "lookup_all d [] = Inr []"
| "lookup_all d (k # ks) =
     (case map_of d k of
        None \<Rightarrow> Inl (KeyError k)
      | Some v \<Rightarrow> (case lookup_all d ks of Inl e \<Rightarrow> Inl e | Inr vs \<Rightarrow> Inr (v # vs)))"

text \<open>
  \<^verbatim>\<open>DataFrame.to_csv(path, mode, header, index=False)\<close> of a frame with the given columns
  and rows: in mode \<^verbatim>\<open>'a'\<close> the rows go after the content of the file, otherwise they
  replace it; the header row is written first when \<open>header\<close> holds.
\<close>

definition to_csv ::
  "string \<Rightarrow> bool \<Rightarrow> bool \<Rightarrow> string list \<Rightarrow> pyval list list \<Rightarrow> world
     \<Rightarrow> (exn + unit) \<times> world" where
  "to_csv path appending header cols rows W =
     (case write_error W path of
        Some msg \<Rightarrow> (Inl (OSError msg), W\<lparr>files := (files W)(path := left_behind W path)\<rparr>)
      | None \<Rightarrow>
          (Inr (), W\<lparr>files := (files W)(path \<mapsto>
                 (if appending then (case files W path of None \<Rightarrow> [] | Some old \<Rightarrow> old) else [])
                 @ (if header then [map VStr cols] else []) @ rows)\<rparr>))"

definition predictions_path :: string where
  "predictions_path = ''diabetes_predictions.csv''"

text \<open>
  The \<^verbatim>\<open>try\<close> block of \<^verbatim>\<open>save_prediction\<close>. The function assigns to the dict of its
  caller: the dict after the call is returned with the result and the state.
\<close>

definition save_try ::
  "pylib \<Rightarrow> string \<Rightarrow> pydict \<Rightarrow> world \<Rightarrow> (exn + unit) \<times> pydict \<times> world" where
  "save_try L outcome vals W =
     (let vals' = dict_set vals ''Outcome'' (VStr outcome);
          file_path = predictions_path
      in (case to_csv file_path True (files W file_path = None)
                 (map fst vals') [map snd vals'] W of
            (Inl e, W') \<Rightarrow> (Inl e, vals', W')
          | (Inr u, W') \<Rightarrow>
              (Inr (), vals', log_write (LogInfo (''Prediction saved: '' @ str_dict L vals')) W')))"

text \<open>\<^verbatim>\<open>save_prediction\<close>: the block with its \<^verbatim>\<open>except Exception\<close> clause.\<close>

definition save_prediction ::
  "pylib \<Rightarrow> string \<Rightarrow> pydict \<Rightarrow> world \<Rightarrow> (exn + unit) \<times> pydict \<times> world" where
  "save_prediction L outcome vals W =
     (case save_try L outcome vals W of
        (Inl e, vals', W') \<Rightarrow>
          (Inr (), vals',
           show_dialog (ShowError ''Save Error'' (''Could not save prediction: '' @ str_exn L e))
             (log_write (LogError (''Error saving prediction: '' @ str_exn L e)) W'))
      | (Inr u, vals', W') \<Rightarrow> (Inr u, vals', W'))"

definition show_prediction_result :: "string \<Rightarrow> pyfloat \<Rightarrow> pydict \<Rightarrow> world \<Rightarrow> world" where
  "show_prediction_result outcome probability vals W =
     show_dialog (ResultWindow outcome probability vals) W"

definition call_model :: "world \<Rightarrow> world" where
  "call_model W = W\<lparr>predict_calls := predict_calls W + 1\<rparr>"

text \<open>The \<^verbatim>\<open>try\<close> block of \<^verbatim>\<open>predict_diabetes\<close>, with the state at the point it ends.\<close>

definition predict_try ::
  "pylib \<Rightarrow> model \<Rightarrow> string list \<Rightarrow> world \<Rightarrow> (exn + unit) \<times> world" where
  "predict_try L m entry_vars W =
     (case validate_inputs L entry_vars of
        Inl e \<Rightarrow> (Inl e, W)
      | Inr vals \<Rightarrow>
     (case lookup_all vals field_names of
        Inl e \<Rightarrow> (Inl e, W)
      | Inr row \<Rightarrow>
     (case predict m [row] of
        Inl e \<Rightarrow> (Inl e, call_model W)
      | Inr prediction \<Rightarrow>
     (case predict_proba m [row] of
        Inl e \<Rightarrow> (Inl e, call_model (call_model W))
      | Inr proba \<Rightarrow>
     (case index proba 0 of
        Inl e \<Rightarrow> (Inl e, call_model (call_model W))
      | Inr proba0 \<Rightarrow>
     (case index proba0 1 of
        Inl e \<Rightarrow> (Inl e, call_model (call_model W))
      | Inr probability \<Rightarrow>
     (case index prediction 0 of
        Inl e \<Rightarrow> (Inl e, call_model (call_model W))
      | Inr c \<Rightarrow>
          (let outcome = (if c = 1 then ''Diabetic'' else ''Non-Diabetic'');
               W1 = show_prediction_result outcome probability vals (call_model (call_model W))
           in (case save_prediction L outcome vals W1 of
                 (r, vals', W2) \<Rightarrow> (r, W2))))))))))"

text \<open>
  \<^verbatim>\<open>predict_diabetes\<close>: the global \<^verbatim>\<open>model\<close> is \<open>None\<close> when loading it failed.
\<close>

definition predict_diabetes :: "pylib \<Rightarrow> model option \<Rightarrow> string list \<Rightarrow> world \<Rightarrow> world" where
  "predict_diabetes L model entry_vars W =
     (case model of
        None \<Rightarrow> show_dialog (ShowError ''Error'' ''Model not loaded'') W
      | Some m \<Rightarrow>
          (case predict_try L m entry_vars W of
             (Inl (ValueError msg), W') \<Rightarrow> show_dialog (ShowError ''Input Error'' msg) W'
           | (Inl e, W') \<Rightarrow>
               show_dialog (ShowError ''Error'' (''Prediction failed: '' @ str_exn L e))
                 (log_write (LogError (''Prediction error: '' @ str_exn L e)) W')
           | (Inr u, W') \<Rightarrow> W'))"

section \<open>The batch predictor\<close>

text \<open>
  A \<^verbatim>\<open>DataFrame\<close>: its columns in order, each with its cells, one per row.
\<close>

type_synonym dataframe = "(string \<times> pyval list) list"

text \<open>\<^verbatim>\<open>data[cols]\<close>, as the matrix of its rows: a column that is absent raises.\<close>

fun select_columns :: "dataframe \<Rightarrow> string list \<Rightarrow> exn + pyval list list" where
  "select_columns data [] = Inr []"
| "select_columns data (c # cs) =
     (case map_of data c of
        None \<Rightarrow> Inl (KeyError c)
      | Some cells \<Rightarrow>
          (case select_columns data cs of Inl e \<Rightarrow> Inl e | Inr rest \<Rightarrow> Inr (cells # rest)))"

definition frame_rows :: "dataframe \<Rightarrow> nat" where
  "frame_rows data = (case data of [] \<Rightarrow> 0 | (c, cells) # rest \<Rightarrow> length cells)"

text \<open>\<^verbatim>\<open>data[col] = cells\<close>: the column is replaced or added last; a column of another
  length than the frame raises.\<close>

definition frame_set :: "dataframe \<Rightarrow> string \<Rightarrow> pyval list \<Rightarrow> exn + dataframe" where
  "frame_set data col cells =
     (if length cells \<noteq> frame_rows data
      then Inl (ValueError (''Length of values ('' @ str_nat (length cells) @
                  '') does not match length of index ('' @ str_nat (frame_rows data) @ '')''))
      else Inr (if col \<in> fst ` set data
                then map (\<lambda>(c, old). if c = col then (c, cells) else (c, old)) data
                else data @ [(col, cells)]))"

text \<open>\<^verbatim>\<open>a[:, 1]\<close> of a matrix given by its rows.\<close>

definition second_column :: "'a list list \<Rightarrow> exn + 'a list" where
  "second_column a =
     (if list_all (\<lambda>r. 1 < length r) a then Inr (map (\<lambda>r. r ! 1) a)
      else Inl (IndexError (''index 1 is out of bounds for axis 1 with size '' @
                  str_nat (case a of [] \<Rightarrow> 0 | r # rs \<Rightarrow> length r))))"

text \<open>
  The \<^verbatim>\<open>try\<close> block of \<^verbatim>\<open>batch_predict\<close>. The answers of the two file dialogs
  (\<open>input_file\<close>, \<open>save_path\<close>: empty when the user cancels) and what \<^verbatim>\<open>pd.read_csv\<close>
  returns for a path are arguments.
\<close>

definition batch_try ::
  "pylib \<Rightarrow> model \<Rightarrow> string \<Rightarrow> (string \<Rightarrow> exn + dataframe) \<Rightarrow> string \<Rightarrow> world
     \<Rightarrow> (exn + unit) \<times> world" where
  "batch_try L m input_file read_csv save_path W =
     (if input_file = [] then (Inr (), W)
      else
     (case read_csv input_file of
        Inl e \<Rightarrow> (Inl e, W)
      | Inr data \<Rightarrow>
     (let required_columns = field_names in
      if \<not> list_all (\<lambda>col. col \<in> set (map fst data)) required_columns
      then (Inl (ValueError (''Missing required columns: '' @
                  str_set L (set required_columns - set (map fst data)))), W)
      else
     (case select_columns data required_columns of
        Inl e \<Rightarrow> (Inl e, W)
      | Inr cols \<Rightarrow>
     (case predict m (transpose cols) of
        Inl e \<Rightarrow> (Inl e, call_model W)
      | Inr predictions \<Rightarrow>
     (case predict_proba m (transpose cols) of
        Inl e \<Rightarrow> (Inl e, call_model (call_model W))
      | Inr proba \<Rightarrow>
     (case second_column proba of
        Inl e \<Rightarrow> (Inl e, call_model (call_model W))
      | Inr probabilities \<Rightarrow>
     (case frame_set data ''Predicted_Outcome'' (map VInt predictions) of
        Inl e \<Rightarrow> (Inl e, call_model (call_model W))
      | Inr data1 \<Rightarrow>
     (case frame_set data1 ''Probability'' (map VFloat probabilities) of
        Inl e \<Rightarrow> (Inl e, call_model (call_model W))
      | Inr data2 \<Rightarrow>
          if save_path \<noteq> [] then
            (case to_csv save_path False True (map fst data2) (transpose (map snd data2))
                    (call_model (call_model W)) of
               (Inl e, W') \<Rightarrow> (Inl e, W')
             | (Inr u, W') \<Rightarrow>
                 (Inr (), show_dialog
                    (ShowInfo ''Success'' (''Batch predictions saved to '' @ save_path)) W'))
          else (Inr (), call_model (call_model W)))))))))))"

definition batch_predict ::
  "pylib \<Rightarrow> model option \<Rightarrow> string \<Rightarrow> (string \<Rightarrow> exn + dataframe) \<Rightarrow> string \<Rightarrow> world
     \<Rightarrow> world" where
  "batch_predict L model input_file read_csv save_path W =
     (case model of
        None \<Rightarrow> show_dialog (ShowError ''Error'' ''Model not loaded'') W
      | Some m \<Rightarrow>
          (case batch_try L m input_file read_csv save_path W of
             (Inl e, W') \<Rightarrow>
               show_dialog (ShowError ''Error'' (''Batch prediction failed: '' @ str_exn L e))
                 (log_write (LogError (''Batch prediction error: '' @ str_exn L e)) W')
           | (Inr u, W') \<Rightarrow> W'))"

section \<open>The credential store\<close>

subsection \<open>The pattern of an email address\<close>

text \<open>
  The regular expressions that the pattern of \<^verbatim>\<open>validate_email\<close> needs: a class of
  characters, sequence, alternative and repetition. \<open>Cls cs\<close> matches one character
  of \<open>cs\<close>. A string matches when the expression that remains after taking the
  derivative by each of its characters accepts the empty string.
\<close>

datatype regex =
    Null
  | Eps
  | Cls string
  | Seq regex regex
  | Alt regex regex
  | Star regex

fun nullable :: "regex \<Rightarrow> bool" where
  "nullable Null = False"
| "nullable Eps = True"
| "nullable (Cls cs) = False"
| "nullable (Seq r s) = (nullable r \<and> nullable s)"
| "nullable (Alt r s) = (nullable r \<or> nullable s)"
| "nullable (Star r) = True"

fun deriv :: "char \<Rightarrow> regex \<Rightarrow> regex" where
  "deriv c Null = Null"
| "deriv c Eps = Null"
| "deriv c (Cls cs) = (if c \<in> set cs then Eps else Null)"
| "deriv c (Seq r s) =
     (if nullable r then Alt (Seq (deriv c r) s) (deriv c s) else Seq (deriv c r) s)"
| "deriv c (Alt r s) = Alt (deriv c r) (deriv c s)"
| "deriv c (Star r) = Seq (deriv c r) (Star r)"

definition full_match :: "regex \<Rightarrow> string \<Rightarrow> bool" where
  "full_match r s = nullable (foldl (\<lambda>r c. deriv c r) r s)"

text \<open>\<^verbatim>\<open>r+\<close> and \<^verbatim>\<open>r{2,}\<close>.\<close>

definition plus :: "regex \<Rightarrow> regex" where
  "plus r = Seq r (Star r)"

definition at_least_two :: "regex \<Rightarrow> regex" where
  "at_least_two r = Seq r (Seq r (Star r))"

definition letters :: string where
  "letters = ''abcdefghijklmnopqrstuvwxyzABCDEFGHIJKLMNOPQRSTUVWXYZ''"

definition digits :: string where
  "digits = ''0123456789''"

text \<open>The pattern \<^verbatim>\<open>[a-zA-Z0-9._%+-]+@[a-zA-Z0-9.-]+\.[a-zA-Z]{2,}\<close> between its anchors.\<close>

definition email_regex :: regex where
  "email_regex =
     Seq (plus (Cls (letters @ digits @ ''._%+-'')))
    (Seq (Cls ''@'')
    (Seq (plus (Cls (letters @ digits @ ''.-'')))
    (Seq (Cls ''.'')
         (at_least_two (Cls letters)))))"

text \<open>
  \<^verbatim>\<open>re.match\<close> of a pattern between \<^verbatim>\<open>^\<close> and \<^verbatim>\<open>$\<close>: the pattern matches from the
  start of the string to its end, or to the newline that ends the string, which
  \<^verbatim>\<open>$\<close> accepts.
\<close>

definition re_match_anchored :: "regex \<Rightarrow> string \<Rightarrow> bool" where
  "re_match_anchored r s =
     (full_match r s \<or> (s \<noteq> [] \<and> last s = CHR 0x0A \<and> full_match r (butlast s)))"

definition validate_email :: "string \<Rightarrow> bool" where
  "validate_email email = re_match_anchored email_regex email"

subsection \<open>The table of users\<close>

text \<open>A row of the table \<^verbatim>\<open>users\<close>; the table is the list of its rows, oldest first.\<close>

record user_row =
  username_col :: string
  password_col :: string
  email_col :: string
  full_name_col :: string

definition hash_password :: "pylib \<Rightarrow> string \<Rightarrow> string" where
  "hash_password L password = sha256_hexdigest L password"

text \<open>
  \<^verbatim>\<open>register_user\<close> returns its result, the message boxes it shows and the table after
  the call. \<open>db_error\<close> is the message of the \<^verbatim>\<open>sqlite3.Error\<close> that the connection
  raises, if it does; the transaction is then rolled back.
\<close>

definition register_user ::
  "pylib \<Rightarrow> string option \<Rightarrow> user_row list \<Rightarrow> string \<Rightarrow> string \<Rightarrow> string \<Rightarrow> string
     \<Rightarrow> bool \<times> dialog list \<times> user_row list" where
  "register_user L db_error users username password email full_name =
     (if \<not> (username \<noteq> [] \<and> password \<noteq> [] \<and> email \<noteq> [] \<and> full_name \<noteq> [])
      then (False, [ShowError ''Error'' ''All fields are required''], users)
      else if length username < 4
      then (False, [ShowError ''Error'' ''Username must be at least 4 characters long''], users)
      else if length password < 8
      then (False, [ShowError ''Error'' ''Password must be at least 8 characters long''], users)
      else if \<not> validate_email email
      then (False, [ShowError ''Error'' ''Invalid email format''], users)
      else
        (case db_error of
           Some msg \<Rightarrow>
             (False, [ShowError ''Database Error'' (''Registration failed: '' @ msg)], users)
         | None \<Rightarrow>
             if find (\<lambda>r. username_col r = username) users \<noteq> None
             then (False, [ShowError ''Error'' ''Username already exists''], users)
             else if find (\<lambda>r. email_col r = email) users \<noteq> None
             then (False, [ShowError ''Error'' ''Email already registered''], users)
             else
               (True, [ShowInfo ''Success'' ''User registered successfully''],
                users @ [\<lparr>username_col = username,
                           password_col = hash_password L password,
                           email_col = email,
                           full_name_col = full_name\<rparr>])))"


subsection \<open>Predicates for stating the properties of the store\<close>

text \<open>Every password column of the table is the digest of some password.\<close>

definition stores_digests :: "pylib \<Rightarrow> user_row list \<Rightarrow> bool" where
  "stores_digests L users = (\<forall>r\<in>set users. password_col r \<in> range (hash_password L))"

text \<open>The four checks of \<^verbatim>\<open>register_user\<close> that do not read the table all pass.\<close>

definition fields_ok :: "string \<Rightarrow> string \<Rightarrow> string \<Rightarrow> string \<Rightarrow> bool" where
  "fields_ok username password email full_name =
     (username \<noteq> [] \<and> password \<noteq> [] \<and> email \<noteq> [] \<and> full_name \<noteq> [] \<and>
      4 \<le> length username \<and> 8 \<le> length password \<and> validate_email email)"

text \<open>The row that \<^verbatim>\<open>register_user\<close> inserts.\<close>

definition new_row :: "pylib \<Rightarrow> string \<Rightarrow> string \<Rightarrow> string \<Rightarrow> string \<Rightarrow> user_row" where
  "new_row L username password email full_name =
     \<lparr>username_col = username, password_col = sha256_hexdigest L password,
      email_col = email, full_name_col = full_name\<rparr>"

section \<open>An instance of the library and sample inputs\<close>

text \<open>
  The theorems hold for every library \<open>L\<close>. To evaluate the model at concrete inputs the
  parameters are instantiated: \<^verbatim>\<open>float\<close> on plain decimal literals (an optional sign,
  digits, an optional fraction; the literals used below are floats exactly), \<^verbatim>\<open>str\<close>
  of a float with a short decimal expansion, \<^verbatim>\<open>repr\<close> of a string without quotes in
  it, and a stand-in for the digest: a function from strings to 64 hexadecimal digits.
\<close>

text \<open>\<^verbatim>\<open>float\<close> on decimal literals, and the words for a NaN and the infinities.\<close>

definition digit_of :: "char \<Rightarrow> nat option" where
  "digit_of c =
     (let n = (of_char c :: nat) in if 48 \<le> n \<and> n \<le> 57 then Some (n - 48) else None)"

fun digits_val :: "string \<Rightarrow> nat \<Rightarrow> nat option" where
  "digits_val [] acc = Some acc"
| "digits_val (c # cs) acc =
     (case digit_of c of None \<Rightarrow> None | Some d \<Rightarrow> digits_val cs (10 * acc + d))"

definition unsigned_decimal :: "string \<Rightarrow> rat option" where
  "unsigned_decimal s =
     (let ip = takeWhile (\<lambda>c. c \<noteq> CHR ''.'') s;
          fp = drop 1 (dropWhile (\<lambda>c. c \<noteq> CHR ''.'') s)
      in if ip = [] \<and> fp = [] then None
         else (case (digits_val ip 0, digits_val fp 0) of
                 (Some a, Some b) \<Rightarrow> Some (of_nat a + of_nat b / 10 ^ length fp)
               | _ \<Rightarrow> None))"

definition decimal_float :: "string \<Rightarrow> pyfloat option" where
  "decimal_float s =
     (if s = ''nan'' then Some NaN
      else if s = ''inf'' then Some PosInf
      else if s = ''-inf'' then Some NegInf
      else (case s of
              [] \<Rightarrow> None
            | c # cs \<Rightarrow>
                if c = CHR ''-'' then map_option (\<lambda>r. Finite (- r)) (unsigned_decimal cs)
                else if c = CHR ''+'' then map_option Finite (unsigned_decimal cs)
                else map_option Finite (unsigned_decimal s)))"

text \<open>\<^verbatim>\<open>str\<close> of a float whose decimal expansion ends within 17 digits.\<close>

fun frac_digits :: "nat \<Rightarrow> rat \<Rightarrow> string" where
  "frac_digits 0 r = []"
| "frac_digits (Suc n) r =
     (let d = nat \<lfloor>r * 10\<rfloor>; r' = r * 10 - of_nat d
      in (''0123456789'' ! d) # (if r' = 0 then [] else frac_digits n r'))"

fun decimal_str :: "pyfloat \<Rightarrow> string" where
  "decimal_str NaN = ''nan''"
| "decimal_str PosInf = ''inf''"
| "decimal_str NegInf = ''-inf''"
| "decimal_str (Finite r) =
     (if r < 0 then ''-'' else []) @ str_nat (nat \<lfloor>\<bar>r\<bar>\<rfloor>) @ ''.'' @
     frac_digits 17 (\<bar>r\<bar> - of_int \<lfloor>\<bar>r\<bar>\<rfloor>)"

text \<open>\<^verbatim>\<open>repr\<close> of a string, and \<^verbatim>\<open>str\<close> of a dict and of a set of field names, the
  elements of the set in the order of the fields.\<close>

definition quote_str :: "string \<Rightarrow> string" where
  "quote_str s = [CHR 0x27] @ s @ [CHR 0x27]"

fun join :: "string \<Rightarrow> string list \<Rightarrow> string" where
  "join sep [] = []"
| "join sep [x] = x"
| "join sep (x # y # ys) = x @ sep @ join sep (y # ys)"

fun str_val :: "pyval \<Rightarrow> string" where
  "str_val (VFloat f) = decimal_str f"
| "str_val (VInt i) = str_int i"
| "str_val (VStr s) = quote_str s"

definition braces_dict :: "pydict \<Rightarrow> string" where
  "braces_dict d = ''{'' @ join '', '' (map (\<lambda>(k, v). quote_str k @ '': '' @ str_val v) d) @ ''}''"

definition braces_set :: "string set \<Rightarrow> string" where
  "braces_set S = ''{'' @ join '', '' (map quote_str (filter (\<lambda>f. f \<in> S) field_names)) @ ''}''"

text \<open>The stand-in for the digest: the hexadecimal digits of the first 32 characters,
  filled with zeros to 64 digits.\<close>

definition toy_digest :: "string \<Rightarrow> string" where
  "toy_digest s =
     take 64 (concat (map (\<lambda>c. [''0123456789abcdef'' ! (of_char c div 16),
                                   ''0123456789abcdef'' ! (of_char c mod 16)]) s)
              @ replicate 64 (CHR ''0''))"

definition demo_lib :: pylib where
  "demo_lib = \<lparr>py_float = decimal_float, repr_str = quote_str, str_float = decimal_str,
      str_dict = braces_dict, str_set = braces_set, sha256_hexdigest = toy_digest\<rparr>"

text \<open>Texts of the 8 entries of the form, and the vectors that validation returns.\<close>

definition entries_at_bounds :: "string list" where
  "entries_at_bounds = [''20'', ''0'', ''200'', ''0'', ''850'', ''70'', ''2.5'', ''120'']"

definition entries_above :: "string list" where
  "entries_above = [''20'', ''0'', ''200'', ''0'', ''850'', ''70'', ''2.75'', ''abc'']"

definition entries_parse_first :: "string list" where
  "entries_parse_first = [''20'', ''abc'', ''200'', ''0'', ''850'', ''70'', ''2.75'', ''120'']"

definition vector_at_bounds :: pydict where
  "vector_at_bounds =
     [(''Pregnancies'', VFloat (Finite 20)), (''Glucose'', VFloat (Finite 0)),
      (''Blood Pressure'', VFloat (Finite 200)), (''Skin Thickness'', VFloat (Finite 0)),
      (''Insulin'', VFloat (Finite 850)), (''BMI'', VFloat (Finite 70)),
      (''Diabetes Pedigree'', VFloat (Finite (5 / 2))), (''Age'', VFloat (Finite 120))]"

definition entries_example :: "string list" where
  "entries_example = [''2'', ''120'', ''70'', ''20'', ''80'', ''25.0'', ''0.5'', ''30'']"

definition vector_example :: pydict where
  "vector_example =
     [(''Pregnancies'', VFloat (Finite 2)), (''Glucose'', VFloat (Finite 120)),
      (''Blood Pressure'', VFloat (Finite 70)), (''Skin Thickness'', VFloat (Finite 20)),
      (''Insulin'', VFloat (Finite 80)), (''BMI'', VFloat (Finite 25)),
      (''Diabetes Pedigree'', VFloat (Finite (1 / 2))), (''Age'', VFloat (Finite 30))]"

text \<open>A model that gives every row the class 0 and the probabilities 0.88 and 0.12
  (the rationals stand for the floats nearest to them).\<close>

definition model_class0 :: model where
  "model_class0 =
     \<lparr>predict = (\<lambda>rows. Inr (map (\<lambda>r. 0) rows)),
      predict_proba = (\<lambda>rows. Inr (map (\<lambda>r. [Finite (22 / 25), Finite (3 / 25)]) rows))\<rparr>"

text \<open>A state with no file, once with every write succeeding, once with every write
  refused.\<close>

definition world0 :: world where
  "world0 = \<lparr>files = (\<lambda>p. None), write_error = (\<lambda>p. None),
      left_behind = (\<lambda>p. None), shown = [], logged = [],
      predict_calls = 0\<rparr>"


text \<open>A table of one row without the columns \<^verbatim>\<open>Glucose\<close> and \<^verbatim>\<open>Age\<close>.\<close>

definition frame_missing :: dataframe where
  "frame_missing =
     [(''Pregnancies'', [VFloat (Finite 2)]), (''Blood Pressure'', [VFloat (Finite 70)]),
      (''Skin Thickness'', [VFloat (Finite 20)]), (''Insulin'', [VFloat (Finite 80)]),
      (''BMI'', [VFloat (Finite 25)]), (''Diabetes Pedigree'', [VFloat (Finite (1 / 2))])]"

text \<open>The table after one registration.\<close>

definition users_alice :: "user_row list" where
  "users_alice = [new_row demo_lib ''alice'' ''password123'' ''alice@example.com'' ''Alice A'']"

section \<open>Properties of the form validator\<close>

lemma distinct_field_names: "distinct field_names"
  by (simp add: field_names_def FIELD_RANGES_def)

lemma length_field_names: "length field_names = 8"
  by (simp add: field_names_def FIELD_RANGES_def)

lemma FIELD_RANGES_lookup:
  "(field, min_val, max_val) \<in> set FIELD_RANGES \<Longrightarrow>
   map_of FIELD_RANGES field = Some (min_val, max_val)"
  using distinct_field_names by (simp add: field_names_def)

lemma field_step_declared:
  assumes "(field, min_val, max_val) \<in> set FIELD_RANGES"
  shows "field_step L field s =
     (case py_float L s of
        None \<Rightarrow> Inl (ValueError (''Invalid '' @ field @ '': '' @ parse_message L s))
      | Some v \<Rightarrow>
          if in_range min_val max_val v then Inr v
          else Inl (ValueError (''Invalid '' @ field @ '': '' @ range_message L field min_val max_val)))"
  using FIELD_RANGES_lookup [OF assms]
  by (simp add: field_step_def field_try_def in_range_def split: option.splits)

lemma float_le_refl: "v \<noteq> NaN \<Longrightarrow> float_le v v"
  by (cases v) simp_all

lemma float_lt_not_le: "float_lt a b \<Longrightarrow> \<not> float_le b a"
  by (cases a; cases b) simp_all

lemma bounds_ordered:
  "(field, min_val, max_val) \<in> set FIELD_RANGES \<Longrightarrow> float_le (num_val min_val) (num_val max_val)"
  by (auto simp add: FIELD_RANGES_def)

lemma dict_set_fresh: "k \<notin> fst ` set d \<Longrightarrow> dict_set d k v = d @ [(k, v)]"
  by (induction d) auto

lemma validate_loop_all_ok:
  "list_all (step_ok L) ps \<Longrightarrow> distinct (map fst ps) \<Longrightarrow>
   fst ` set ps \<inter> fst ` set acc = {} \<Longrightarrow>
   validate_loop L ps acc = Inr (acc @ map (step_entry L) ps)"
proof (induction ps arbitrary: acc)
  case Nil
  then show ?case by simp
next
  case (Cons p ps)
  obtain f s where p: "p = (f, s)" by (cases p)
  from Cons.prems(1) obtain v where v: "field_step L f s = Inr v"
    by (auto simp: p step_ok_def split: sum.splits)
  have fresh: "f \<notin> fst ` set acc" using Cons.prems(3) by (auto simp: p)
  have "validate_loop L ps (acc @ [(f, VFloat v)]) =
        Inr ((acc @ [(f, VFloat v)]) @ map (step_entry L) ps)"
  proof (rule Cons.IH)
    show "list_all (step_ok L) ps" using Cons.prems(1) by simp
    show "distinct (map fst ps)" using Cons.prems(2) by simp
    show "fst ` set ps \<inter> fst ` set (acc @ [(f, VFloat v)]) = {}"
      using Cons.prems(2,3) by (auto simp: p)
  qed
  then show ?case
    by (simp add: p v dict_set_fresh [OF fresh] step_entry_def)
qed

lemma validate_loop_first_failure:
  "list_all (step_ok L) pre \<Longrightarrow> field_step L f s = Inl e \<Longrightarrow>
   validate_loop L (pre @ (f, s) # post) acc = Inl e"
proof (induction pre arbitrary: acc)
  case Nil
  then show ?case by simp
next
  case (Cons p pre)
  obtain g t where p: "p = (g, t)" by (cases p)
  from Cons.prems(1) obtain v where v: "field_step L g t = Inr v"
    by (auto simp: p step_ok_def split: sum.splits)
  show ?case using Cons by (simp add: p v)
qed

lemma validate_loop_Inr_all_ok:
  "validate_loop L ps acc = Inr d \<Longrightarrow> list_all (step_ok L) ps"
proof (induction ps arbitrary: acc)
  case Nil
  then show ?case by simp
next
  case (Cons p ps)
  obtain g t where p: "p = (g, t)" by (cases p)
  show ?case
  proof (cases "field_step L g t")
    case (Inl e)
    then show ?thesis using Cons.prems by (simp add: p)
  next
    case (Inr v)
    then have "list_all (step_ok L) ps" using Cons.prems Cons.IH by (simp add: p)
    moreover have "step_ok L p" by (simp add: p step_ok_def Inr)
    ultimately show ?thesis by simp
  qed
qed

lemma step_ok_entry_valid:
  assumes "j < length FIELD_RANGES"
  shows "step_ok L (fst (FIELD_RANGES ! j), s) = entry_valid L (FIELD_RANGES ! j) s"
proof -
  obtain f lo hi where fr: "FIELD_RANGES ! j = (f, lo, hi)" by (cases "FIELD_RANGES ! j")
  have mem: "(f, lo, hi) \<in> set FIELD_RANGES" using assms fr nth_mem by fastforce
  show ?thesis
    by (simp add: step_ok_def fr entry_valid_def field_step_declared [OF mem]
        split: option.splits)
qed

lemma zip_all_ok_iff:
  assumes "length entry_vars = length FIELD_RANGES"
  shows "list_all (step_ok L) (zip field_names entry_vars) =
         (\<forall>j<length FIELD_RANGES. entry_valid L (FIELD_RANGES ! j) (entry_vars ! j))"
  using assms by (auto simp add: list_all_length field_names_def step_ok_entry_valid)

lemma validate_inputs_Inr_iff:
  assumes "length entry_vars = length FIELD_RANGES"
  shows "validate_inputs L entry_vars = Inr vals \<longleftrightarrow>
         (\<forall>j<length FIELD_RANGES. entry_valid L (FIELD_RANGES ! j) (entry_vars ! j)) \<and>
         vals = map (step_entry L) (zip field_names entry_vars)"
proof -
  have d: "distinct (map fst (zip field_names entry_vars))"
    using assms distinct_field_names by (simp add: field_names_def)
  show ?thesis
  proof
    assume r: "validate_inputs L entry_vars = Inr vals"
    then have ok: "list_all (step_ok L) (zip field_names entry_vars)"
      unfolding validate_inputs_def by (rule validate_loop_Inr_all_ok)
    from validate_loop_all_ok [OF ok d, of "[]"] r
    have "vals = map (step_entry L) (zip field_names entry_vars)"
      by (simp add: validate_inputs_def)
    with ok show "(\<forall>j<length FIELD_RANGES. entry_valid L (FIELD_RANGES ! j) (entry_vars ! j)) \<and>
         vals = map (step_entry L) (zip field_names entry_vars)"
      by (simp add: zip_all_ok_iff [OF assms])
  next
    assume a: "(\<forall>j<length FIELD_RANGES. entry_valid L (FIELD_RANGES ! j) (entry_vars ! j)) \<and>
         vals = map (step_entry L) (zip field_names entry_vars)"
    then have ok: "list_all (step_ok L) (zip field_names entry_vars)"
      by (simp add: zip_all_ok_iff [OF assms])
    from validate_loop_all_ok [OF ok d, of "[]"] a
    show "validate_inputs L entry_vars = Inr vals"
      by (simp add: validate_inputs_def)
  qed
qed

lemma validate_inputs_fails_at_first:
  assumes len: "length entry_vars = length FIELD_RANGES"
    and i: "i < length FIELD_RANGES"
    and before: "\<forall>j<i. entry_valid L (FIELD_RANGES ! j) (entry_vars ! j)"
    and fail: "field_step L (field_names ! i) (entry_vars ! i) = Inl e"
  shows "validate_inputs L entry_vars = Inl e"
proof -
  let ?ps = "zip field_names entry_vars"
  have n: "length ?ps = length FIELD_RANGES" using len by (simp add: field_names_def)
  have split: "?ps = take i ?ps @ (field_names ! i, entry_vars ! i) # drop (Suc i) ?ps"
    using id_take_nth_drop [of i ?ps] i n len by (simp add: field_names_def)
  have pre: "list_all (step_ok L) (take i ?ps)"
    using before i n len
    by (auto simp add: list_all_length field_names_def step_ok_entry_valid)
  have "validate_loop L (take i ?ps @ (field_names ! i, entry_vars ! i) # drop (Suc i) ?ps) [] = Inl e"
    by (rule validate_loop_first_failure [OF pre fail])
  with split show ?thesis by (simp add: validate_inputs_def)
qed

lemma bounds_not_nan:
  "(field, min_val, max_val) \<in> set FIELD_RANGES \<Longrightarrow>
   num_val min_val \<noteq> NaN \<and> num_val max_val \<noteq> NaN"
  by (auto simp add: FIELD_RANGES_def)

lemma in_range_at_bounds:
  assumes "(field, min_val, max_val) \<in> set FIELD_RANGES"
  shows "in_range min_val max_val (num_val min_val) \<and> in_range min_val max_val (num_val max_val)"
  using bounds_not_nan [OF assms] bounds_ordered [OF assms]
  by (simp add: in_range_def float_le_refl)

lemma not_in_range_outside:
  "float_lt v (num_val min_val) \<or> float_lt (num_val max_val) v \<Longrightarrow> \<not> in_range min_val max_val v"
  by (auto simp add: in_range_def dest: float_lt_not_le)

lemma step_entry_nth:
  assumes "length entry_vars = length FIELD_RANGES" and "j < length FIELD_RANGES"
    and "py_float L (entry_vars ! j) = Some v"
    and "entry_valid L (FIELD_RANGES ! j) (entry_vars ! j)"
  shows "map (step_entry L) (zip field_names entry_vars) ! j = (fst (FIELD_RANGES ! j), VFloat v)"
proof -
  obtain f lo hi where fr: "FIELD_RANGES ! j = (f, lo, hi)" by (cases "FIELD_RANGES ! j")
  have mem: "(f, lo, hi) \<in> set FIELD_RANGES" using assms(2) fr nth_mem by fastforce
  show ?thesis using assms
    by (simp add: field_names_def step_entry_def fr field_step_declared [OF mem] entry_valid_def)
qed

lemma range_message_head:
  "(field, lo, hi) \<in> set FIELD_RANGES \<Longrightarrow> hd (range_message L field lo' hi') \<noteq> CHR ''c''"
  by (auto simp add: FIELD_RANGES_def range_message_def)

lemma parse_message_head: "hd (parse_message L s) = CHR ''c''"
  by (simp add: parse_message_def)

lemma messages_differ:
  "(field, lo, hi) \<in> set FIELD_RANGES \<Longrightarrow> parse_message L s \<noteq> range_message L field lo' hi'"
  using range_message_head parse_message_head by metis

lemma all_below_8: "(\<forall>j<8. P (j::nat)) = (P 0 \<and> P 1 \<and> P 2 \<and> P 3 \<and> P 4 \<and> P 5 \<and> P 6 \<and> P 7)"
proof -
  have "j < 8 \<longleftrightarrow> j = 0 \<or> j = 1 \<or> j = 2 \<or> j = 3 \<or> j = 4 \<or> j = 5 \<or> j = 6 \<or> j = 7" for j :: nat
    by arith
  then show ?thesis by auto
qed

lemma length_FIELD_RANGES: "length FIELD_RANGES = 8"
  by (simp add: FIELD_RANGES_def)

text \<open>
  Claim C2. For every declared field, validation accepts a value exactly equal to the
  minimum or to the maximum of the field (the bounds are inclusive), and rejects a value
  strictly below the minimum or strictly above the maximum with a range error whose
  message names the field and its bounds. Stated for the loop body at the field, and
  for \<^verbatim>\<open>validate_inputs\<close> as a whole: it returns a vector holding the value when
  the other entries are valid, and raises the range error of the field when the entries
  before it are valid.
\<close>

theorem validate_inputs_bounds_inclusive:
  assumes len: "length entry_vars = length FIELD_RANGES"
    and i: "i < length FIELD_RANGES"
    and fr: "FIELD_RANGES ! i = (field, min_val, max_val)"
    and parsed: "py_float L (entry_vars ! i) = Some v"
  shows
   "((v = num_val min_val \<or> v = num_val max_val) \<longrightarrow>
        field_step L field (entry_vars ! i) = Inr v) \<and>
    ((v = num_val min_val \<or> v = num_val max_val) \<and>
     (\<forall>j<length FIELD_RANGES. j \<noteq> i \<longrightarrow> entry_valid L (FIELD_RANGES ! j) (entry_vars ! j)) \<longrightarrow>
        (\<exists>vals. validate_inputs L entry_vars = Inr vals \<and> vals ! i = (field, VFloat v))) \<and>
    ((float_lt v (num_val min_val) \<or> float_lt (num_val max_val) v) \<longrightarrow>
        field_step L field (entry_vars ! i) =
          Inl (ValueError (''Invalid '' @ field @ '': '' @ field @ '' must be between '' @
                 str_num L min_val @ '' and '' @ str_num L max_val))) \<and>
    ((float_lt v (num_val min_val) \<or> float_lt (num_val max_val) v) \<and>
     (\<forall>j<i. entry_valid L (FIELD_RANGES ! j) (entry_vars ! j)) \<longrightarrow>
        validate_inputs L entry_vars =
          Inl (ValueError (''Invalid '' @ field @ '': '' @ field @ '' must be between '' @
                 str_num L min_val @ '' and '' @ str_num L max_val)))"
proof -
  have mem: "(field, min_val, max_val) \<in> set FIELD_RANGES"
    using i fr nth_mem by fastforce
  have nm: "field_names ! i = field" using i fr by (simp add: field_names_def)
  have step: "field_step L field (entry_vars ! i) =
      (if in_range min_val max_val v then Inr v
       else Inl (ValueError (''Invalid '' @ field @ '': '' @ range_message L field min_val max_val)))"
    by (simp add: field_step_declared [OF mem] parsed)
  have accept: "field_step L field (entry_vars ! i) = Inr v"
    if "v = num_val min_val \<or> v = num_val max_val"
    using that in_range_at_bounds [OF mem] step by auto
  have reject: "field_step L field (entry_vars ! i) =
      Inl (ValueError (''Invalid '' @ field @ '': '' @ field @ '' must be between '' @
             str_num L min_val @ '' and '' @ str_num L max_val))"
    if "float_lt v (num_val min_val) \<or> float_lt (num_val max_val) v"
    using not_in_range_outside [OF that] step by (simp add: range_message_def)
  have whole_accept: "\<exists>vals. validate_inputs L entry_vars = Inr vals \<and> vals ! i = (field, VFloat v)"
    if b: "v = num_val min_val \<or> v = num_val max_val"
      and others: "\<forall>j<length FIELD_RANGES. j \<noteq> i \<longrightarrow> entry_valid L (FIELD_RANGES ! j) (entry_vars ! j)"
  proof -
    have vi: "entry_valid L (FIELD_RANGES ! i) (entry_vars ! i)"
      using b in_range_at_bounds [OF mem] by (auto simp add: entry_valid_def parsed fr)
    have all: "\<forall>j<length FIELD_RANGES. entry_valid L (FIELD_RANGES ! j) (entry_vars ! j)"
      using vi others by metis
    have "validate_inputs L entry_vars = Inr (map (step_entry L) (zip field_names entry_vars))"
      using all by (simp add: validate_inputs_Inr_iff [OF len])
    moreover have "map (step_entry L) (zip field_names entry_vars) ! i = (field, VFloat v)"
      using step_entry_nth [OF len i parsed vi] by (simp add: fr)
    ultimately show ?thesis by blast
  qed
  have whole_reject: "validate_inputs L entry_vars =
      Inl (ValueError (''Invalid '' @ field @ '': '' @ field @ '' must be between '' @
             str_num L min_val @ '' and '' @ str_num L max_val))"
    if out: "float_lt v (num_val min_val) \<or> float_lt (num_val max_val) v"
      and before: "\<forall>j<i. entry_valid L (FIELD_RANGES ! j) (entry_vars ! j)"
    using validate_inputs_fails_at_first [OF len i before] reject [OF out] by (simp add: nm)
  show ?thesis using accept reject whole_accept whole_reject by blast
qed

theorem validate_inputs_bounds_inclusive_witness:
  "length entries_at_bounds = length FIELD_RANGES \<and>
   FIELD_RANGES ! 6 = (''Diabetes Pedigree'', PyInt 0, PyFloat (Finite (5 / 2))) \<and>
   py_float demo_lib (entries_at_bounds ! 6) = Some (Finite (5 / 2)) \<and>
   field_step demo_lib ''Diabetes Pedigree'' (entries_at_bounds ! 6) = Inr (Finite (5 / 2)) \<and>
   (\<exists>vals. validate_inputs demo_lib entries_at_bounds = Inr vals \<and>
      vals ! 6 = (''Diabetes Pedigree'', VFloat (Finite (5 / 2)))) \<and>
   py_float demo_lib (entries_above ! 6) = Some (Finite (11 / 4)) \<and>
   validate_inputs demo_lib entries_above =
     Inl (ValueError ''Invalid Diabetes Pedigree: Diabetes Pedigree must be between 0 and 2.5'')"
proof -
  have len: "length entries_at_bounds = length FIELD_RANGES"
    by (simp add: entries_at_bounds_def FIELD_RANGES_def)
  have len': "length entries_above = length FIELD_RANGES"
    by (simp add: entries_above_def FIELD_RANGES_def)
  have i: "(6::nat) < length FIELD_RANGES" by (simp add: FIELD_RANGES_def)
  have fr: "FIELD_RANGES ! 6 = (''Diabetes Pedigree'', PyInt 0, PyFloat (Finite (5 / 2)))"
    by (simp add: FIELD_RANGES_def)
  have p: "py_float demo_lib (entries_at_bounds ! 6) = Some (Finite (5 / 2))"
    by code_simp
  have p': "py_float demo_lib (entries_above ! 6) = Some (Finite (11 / 4))"
    by code_simp
  have others: "\<forall>j<length FIELD_RANGES. j \<noteq> 6 \<longrightarrow>
      entry_valid demo_lib (FIELD_RANGES ! j) (entries_at_bounds ! j)"
    unfolding length_FIELD_RANGES all_below_8 by (intro conjI impI; code_simp)
  have before: "\<forall>j<6. entry_valid demo_lib (FIELD_RANGES ! j) (entries_above ! j)"
  proof (intro allI impI)
    fix j :: nat assume "j < 6"
    then have "j = 0 \<or> j = 1 \<or> j = 2 \<or> j = 3 \<or> j = 4 \<or> j = 5" by arith
    then show "entry_valid demo_lib (FIELD_RANGES ! j) (entries_above ! j)"
      by (elim disjE; hypsubst; code_simp)
  qed
  have s: "str_num demo_lib (PyInt 0) = ''0'' \<and> str_num demo_lib (PyFloat (Finite (5 / 2))) = ''2.5''"
    by code_simp
  have out: "float_lt (Finite (11 / 4)) (num_val (PyInt 0)) \<or>
             float_lt (num_val (PyFloat (Finite (5 / 2)))) (Finite (11 / 4))"
    by simp
  note A = validate_inputs_bounds_inclusive [OF len i fr p]
  note B = validate_inputs_bounds_inclusive [OF len' i fr p']
  from A others have a1: "field_step demo_lib ''Diabetes Pedigree'' (entries_at_bounds ! 6) = Inr (Finite (5 / 2))"
    and a2: "\<exists>vals. validate_inputs demo_lib entries_at_bounds = Inr vals \<and>
      vals ! 6 = (''Diabetes Pedigree'', VFloat (Finite (5 / 2)))"
    by simp_all
  from B out before have b: "validate_inputs demo_lib entries_above =
     Inl (ValueError ''Invalid Diabetes Pedigree: Diabetes Pedigree must be between 0 and 2.5'')"
    using s by simp
  show ?thesis using len fr p a1 a2 p' b by blast
qed

text \<open>
  Claim C3. \<^verbatim>\<open>validate_inputs\<close> processes the fields in declaration order and aborts
  at the first failing field, returning no partial vector: it returns a vector exactly
  when every entry parses and lies within its bounds, the vector then has the 8 fields
  in declaration order, each with its parsed value; otherwise the error is the one of
  the first failing field, whatever the later entries are: the error of \<^verbatim>\<open>float\<close>
  for an entry that is not numeric, the range error for a numeric entry out of bounds,
  and the two messages differ.
\<close>

theorem validate_inputs_first_failure_aborts:
  assumes len: "length entry_vars = length FIELD_RANGES"
  shows
   "((\<exists>vals. validate_inputs L entry_vars = Inr vals) \<longleftrightarrow>
       (\<forall>j<length FIELD_RANGES. entry_valid L (FIELD_RANGES ! j) (entry_vars ! j))) \<and>
    (validate_inputs L entry_vars = Inr vals \<longrightarrow>
       length vals = 8 \<and> map fst vals = field_names \<and>
       (\<forall>j<length FIELD_RANGES. \<exists>v. py_float L (entry_vars ! j) = Some v \<and>
            in_range (fst (snd (FIELD_RANGES ! j))) (snd (snd (FIELD_RANGES ! j))) v \<and>
            vals ! j = (field_names ! j, VFloat v))) \<and>
    (i < length FIELD_RANGES \<and>
     (\<forall>j<i. entry_valid L (FIELD_RANGES ! j) (entry_vars ! j)) \<and>
     \<not> entry_valid L (FIELD_RANGES ! i) (entry_vars ! i) \<longrightarrow>
       validate_inputs L entry_vars =
         Inl (ValueError (''Invalid '' @ fst (FIELD_RANGES ! i) @ '': '' @
           (case py_float L (entry_vars ! i) of
              None \<Rightarrow> parse_message L (entry_vars ! i)
            | Some v \<Rightarrow> range_message L (fst (FIELD_RANGES ! i))
                 (fst (snd (FIELD_RANGES ! i))) (snd (snd (FIELD_RANGES ! i))))))) \<and>
    (i < length FIELD_RANGES \<longrightarrow>
       parse_message L s \<noteq> range_message L (fst (FIELD_RANGES ! i)) lo hi)"
proof -
  have c1: "(\<exists>vals. validate_inputs L entry_vars = Inr vals) \<longleftrightarrow>
       (\<forall>j<length FIELD_RANGES. entry_valid L (FIELD_RANGES ! j) (entry_vars ! j))"
    by (simp add: validate_inputs_Inr_iff [OF len])
  have c2: "length vals = 8 \<and> map fst vals = field_names \<and>
       (\<forall>j<length FIELD_RANGES. \<exists>v. py_float L (entry_vars ! j) = Some v \<and>
            in_range (fst (snd (FIELD_RANGES ! j))) (snd (snd (FIELD_RANGES ! j))) v \<and>
            vals ! j = (field_names ! j, VFloat v))"
    if r: "validate_inputs L entry_vars = Inr vals"
  proof -
    from r have all: "\<forall>j<length FIELD_RANGES. entry_valid L (FIELD_RANGES ! j) (entry_vars ! j)"
      and vals: "vals = map (step_entry L) (zip field_names entry_vars)"
      by (simp_all add: validate_inputs_Inr_iff [OF len])
    have l8: "length vals = 8"
      using len length_field_names by (simp add: vals field_names_def)
    have keys: "map fst vals = field_names"
      using len by (simp add: vals step_entry_def field_names_def comp_def map_fst_zip)
    have each: "\<exists>v. py_float L (entry_vars ! j) = Some v \<and>
            in_range (fst (snd (FIELD_RANGES ! j))) (snd (snd (FIELD_RANGES ! j))) v \<and>
            vals ! j = (field_names ! j, VFloat v)" if j: "j < length FIELD_RANGES" for j
    proof -
      have ev: "entry_valid L (FIELD_RANGES ! j) (entry_vars ! j)" using all j by simp
      then obtain v where v: "py_float L (entry_vars ! j) = Some v"
        and ir: "in_range (fst (snd (FIELD_RANGES ! j))) (snd (snd (FIELD_RANGES ! j))) v"
        by (auto simp add: entry_valid_def split: option.splits)
      have "vals ! j = (field_names ! j, VFloat v)"
        using step_entry_nth [OF len j v ev] j by (simp add: vals field_names_def)
      with v ir show ?thesis by blast
    qed
    show ?thesis using l8 keys each by blast
  qed
  have c3: "validate_inputs L entry_vars =
         Inl (ValueError (''Invalid '' @ fst (FIELD_RANGES ! i) @ '': '' @
           (case py_float L (entry_vars ! i) of
              None \<Rightarrow> parse_message L (entry_vars ! i)
            | Some v \<Rightarrow> range_message L (fst (FIELD_RANGES ! i))
                 (fst (snd (FIELD_RANGES ! i))) (snd (snd (FIELD_RANGES ! i))))))"
    if i: "i < length FIELD_RANGES"
      and before: "\<forall>j<i. entry_valid L (FIELD_RANGES ! j) (entry_vars ! j)"
      and bad: "\<not> entry_valid L (FIELD_RANGES ! i) (entry_vars ! i)"
  proof -
    obtain f lo' hi' where fr: "FIELD_RANGES ! i = (f, lo', hi')" by (cases "FIELD_RANGES ! i")
    have mem: "(f, lo', hi') \<in> set FIELD_RANGES" using i fr nth_mem by fastforce
    have nm: "field_names ! i = f" using i fr by (simp add: field_names_def)
    have "field_step L (field_names ! i) (entry_vars ! i) =
         Inl (ValueError (''Invalid '' @ f @ '': '' @
           (case py_float L (entry_vars ! i) of
              None \<Rightarrow> parse_message L (entry_vars ! i)
            | Some v \<Rightarrow> range_message L f lo' hi')))"
      using bad by (auto simp add: nm fr entry_valid_def field_step_declared [OF mem] split: option.splits)
    from validate_inputs_fails_at_first [OF len i before this] show ?thesis
      by (simp add: fr cong: option.case_cong)
  qed
  have c4: "parse_message L s \<noteq> range_message L (fst (FIELD_RANGES ! i)) lo hi"
    if i: "i < length FIELD_RANGES"
  proof -
    obtain f lo' hi' where fr: "FIELD_RANGES ! i = (f, lo', hi')" by (cases "FIELD_RANGES ! i")
    have mem: "(f, lo', hi') \<in> set FIELD_RANGES" using i fr nth_mem by fastforce
    show ?thesis using messages_differ [OF mem] by (simp add: fr)
  qed
  show ?thesis using c1 c2 c3 c4 by blast
qed

theorem validate_inputs_first_failure_aborts_witness:
  "length entries_parse_first = length FIELD_RANGES \<and>
   entry_valid demo_lib (FIELD_RANGES ! 0) (entries_parse_first ! 0) \<and>
   \<not> entry_valid demo_lib (FIELD_RANGES ! 1) (entries_parse_first ! 1) \<and>
   \<not> entry_valid demo_lib (FIELD_RANGES ! 6) (entries_parse_first ! 6) \<and>
   validate_inputs demo_lib entries_parse_first =
     Inl (ValueError (''Invalid Glucose: could not convert string to float: '' @ quote_str ''abc'')) \<and>
   validate_inputs demo_lib entries_at_bounds = Inr vector_at_bounds \<and>
   length vector_at_bounds = 8 \<and> map fst vector_at_bounds = field_names \<and>
   parse_message demo_lib ''abc'' \<noteq>
     range_message demo_lib (fst (FIELD_RANGES ! 1)) (PyInt 0) (PyInt 300)"
proof -
  have len: "length entries_parse_first = length FIELD_RANGES"
    by (simp add: entries_parse_first_def FIELD_RANGES_def)
  have len': "length entries_at_bounds = length FIELD_RANGES"
    by (simp add: entries_at_bounds_def FIELD_RANGES_def)
  have i: "(1::nat) < length FIELD_RANGES" by (simp add: FIELD_RANGES_def)
  have v0: "entry_valid demo_lib (FIELD_RANGES ! 0) (entries_parse_first ! 0)" by code_simp
  have v1: "\<not> entry_valid demo_lib (FIELD_RANGES ! 1) (entries_parse_first ! 1)" by code_simp
  have v6: "\<not> entry_valid demo_lib (FIELD_RANGES ! 6) (entries_parse_first ! 6)" by code_simp
  have before: "\<forall>j<1. entry_valid demo_lib (FIELD_RANGES ! j) (entries_parse_first ! j)"
    using v0 by simp
  have p1: "py_float demo_lib (entries_parse_first ! 1) = None" by code_simp
  have e1: "entries_parse_first ! 1 = ''abc''" by (simp add: entries_parse_first_def)
  have f1: "fst (FIELD_RANGES ! 1) = ''Glucose''" by (simp add: FIELD_RANGES_def)
  have r: "validate_inputs demo_lib entries_at_bounds = Inr vector_at_bounds" by code_simp
  note A = validate_inputs_first_failure_aborts
    [OF len, of demo_lib vector_at_bounds 1 "''abc''" "PyInt 0" "PyInt 300"]
  note B = validate_inputs_first_failure_aborts
    [OF len', of demo_lib vector_at_bounds 1 "''abc''" "PyInt 0" "PyInt 300"]
  have rp: "repr_str demo_lib = quote_str" by (simp add: demo_lib_def)
  from A i before v1 p1 e1 f1 have a: "validate_inputs demo_lib entries_parse_first =
     Inl (ValueError (''Invalid Glucose: could not convert string to float: '' @ quote_str ''abc''))"
    by (simp add: parse_message_def rp)
  from A i have d: "parse_message demo_lib ''abc'' \<noteq>
     range_message demo_lib (fst (FIELD_RANGES ! 1)) (PyInt 0) (PyInt 300)"
    by simp
  from B r have b: "length vector_at_bounds = 8 \<and> map fst vector_at_bounds = field_names"
    by simp
  show ?thesis using len v0 v1 v6 a r b d by blast
qed

section \<open>Properties of the predictor and of the result recorder\<close>

lemma world_eq_simps [simp]:
  "files (show_dialog d W) = files W" "write_error (show_dialog d W) = write_error W"
  "left_behind (show_dialog d W) = left_behind W" "left_behind (log_write r W) = left_behind W"
  "left_behind (call_model W) = left_behind W"
  "logged (show_dialog d W) = logged W" "predict_calls (show_dialog d W) = predict_calls W"
  "shown (show_dialog d W) = shown W @ [d]"
  "files (log_write r W) = files W" "write_error (log_write r W) = write_error W"
  "shown (log_write r W) = shown W" "predict_calls (log_write r W) = predict_calls W"
  "logged (log_write r W) = logged W @ [r]"
  "files (call_model W) = files W" "write_error (call_model W) = write_error W"
  "shown (call_model W) = shown W" "logged (call_model W) = logged W"
  "predict_calls (call_model W) = Suc (predict_calls W)"
  by (simp_all add: show_dialog_def log_write_def call_model_def)

lemma dict_set_lookup: "map_of (dict_set d k v) k = Some v"
  by (induction d) auto

lemma dict_set_other: "k' \<noteq> k \<Longrightarrow> map_of (dict_set d k v) k' = map_of d k'"
  by (induction d) auto

lemma save_prediction_ok:
  assumes "write_error W predictions_path = None"
  shows "save_prediction L outcome vals W =
     (Inr (), dict_set vals ''Outcome'' (VStr outcome),
      log_write (LogInfo (''Prediction saved: '' @ str_dict L (dict_set vals ''Outcome'' (VStr outcome))))
        (W\<lparr>files := (files W)(predictions_path \<mapsto>
            (case files W predictions_path of None \<Rightarrow> [] | Some old \<Rightarrow> old)
            @ (if files W predictions_path = None
               then [map VStr (map fst (dict_set vals ''Outcome'' (VStr outcome)))] else [])
            @ [map snd (dict_set vals ''Outcome'' (VStr outcome))])\<rparr>))"
  using assms by (simp add: save_prediction_def save_try_def to_csv_def Let_def)

lemma save_prediction_failed:
  assumes "write_error W predictions_path = Some msg"
  shows "save_prediction L outcome vals W =
     (Inr (), dict_set vals ''Outcome'' (VStr outcome),
      show_dialog (ShowError ''Save Error'' (''Could not save prediction: '' @ msg))
        (log_write (LogError (''Error saving prediction: '' @ msg))
           (W\<lparr>files := (files W)(predictions_path := left_behind W predictions_path)\<rparr>)))"
  using assms by (simp add: save_prediction_def save_try_def to_csv_def Let_def)

lemma dict_set_map_fst:
  "map fst (dict_set d k v) = (if k \<in> set (map fst d) then map fst d else map fst d @ [k])"
  by (induction d) (auto simp add: rev_image_eqI)

lemma dict_set_keys: "fst ` set (dict_set d k v) = insert k (fst ` set d)"
proof -
  have "set (map fst (dict_set d k v)) = insert k (set (map fst d))"
    unfolding dict_set_map_fst by auto
  then show ?thesis by simp
qed

lemma validate_loop_keys:
  "validate_loop L ps acc = Inr d \<Longrightarrow> fst ` set d \<subseteq> fst ` set acc \<union> fst ` set ps"
proof (induction ps arbitrary: acc)
  case Nil
  then show ?case by auto
next
  case (Cons p ps)
  obtain f s where p: "p = (f, s)" by (cases p)
  show ?case
  proof (cases "field_step L f s")
    case (Inl e)
    then show ?thesis using Cons.prems by (simp add: p)
  next
    case (Inr v)
    then have "validate_loop L ps (dict_set acc f (VFloat v)) = Inr d"
      using Cons.prems by (simp add: p)
    from Cons.IH [OF this] show ?thesis by (auto simp add: p dict_set_keys)
  qed
qed

lemma validate_inputs_keys:
  assumes "validate_inputs L entry_vars = Inr vals"
  shows "fst ` set vals \<subseteq> set field_names"
proof -
  have "fst ` set vals \<subseteq> fst ` set ([] :: pydict) \<union> fst ` set (zip field_names entry_vars)"
    using assms unfolding validate_inputs_def by (rule validate_loop_keys)
  also have "\<dots> \<subseteq> set field_names"
    by (auto dest: set_zip_leftD)
  finally show ?thesis .
qed

lemma Outcome_not_a_field: "''Outcome'' \<notin> set field_names"
  by (simp add: field_names_def FIELD_RANGES_def)

lemma lookup_all_keys:
  "distinct (map fst d) \<Longrightarrow> set ks \<subseteq> fst ` set d \<Longrightarrow>
   lookup_all d ks = Inr (map (\<lambda>k. the (map_of d k)) ks)"
  by (induction ks) (auto simp add: map_of_eq_None_iff split: option.splits)

lemma lookup_all_own_keys:
  assumes "distinct (map fst d)"
  shows "lookup_all d (map fst d) = Inr (map snd d)"
proof -
  have "map (\<lambda>k. the (map_of d k)) (map fst d) = map snd d"
    using assms by (auto simp add: map_idI)
  then show ?thesis using lookup_all_keys [OF assms, of "map fst d"] by simp
qed

lemma validate_inputs_map_fst:
  assumes "validate_inputs L entry_vars = Inr vals"
    and "length entry_vars = length FIELD_RANGES"
  shows "map fst vals = field_names"
proof -
  have "vals = map (step_entry L) (zip field_names entry_vars)"
    using assms by (simp add: validate_inputs_Inr_iff)
  then show ?thesis
    using assms(2) by (simp add: step_entry_def field_names_def comp_def map_fst_zip)
qed

lemma index_simps:
  "index (x # xs) 0 = Inr x" "index (x # y # ys) 1 = Inr y"
  "index (x # y # ys) (Suc 0) = Inr y"
  by (simp_all add: index_def)

lemma validate_entries_example: "validate_inputs demo_lib entries_example = Inr vector_example"
  by code_simp

text \<open>
  Claim C1. For every validated vector of the 8 fields for which the model returns a
  class and the probabilities of the two classes, \<^verbatim>\<open>predict_diabetes\<close> shows the outcome
  ``Diabetic'' if and only if the class that the model returns is 1, and
  ``Non-Diabetic'' otherwise, together with the probability of the positive class
  (the second entry of the model's probabilities); the recorded row is the 8 values
  and the outcome. So a vector that the model gives class 0 with probability 0.12
  yields ``Non-Diabetic'' with probability 0.12.
\<close>

theorem predict_diabetes_outcome:
  assumes valid: "validate_inputs L entry_vars = Inr vals"
    and len: "length entry_vars = length FIELD_RANGES"
    and cls: "predict m [map snd vals] = Inr (c # cs)"
    and prob: "predict_proba m [map snd vals] = Inr ((p0 # p1 # ps) # pss)"
  shows "\<exists>outcome.
     shown (predict_diabetes L (Some m) entry_vars W) =
       shown W @ [ResultWindow outcome p1 vals] @
       (case write_error W predictions_path of
          None \<Rightarrow> []
        | Some msg \<Rightarrow> [ShowError ''Save Error'' (''Could not save prediction: '' @ msg)]) \<and>
     (outcome = ''Diabetic'' \<longleftrightarrow> c = 1) \<and>
     (outcome \<noteq> ''Diabetic'' \<longrightarrow> outcome = ''Non-Diabetic'') \<and>
     (write_error W predictions_path = None \<longrightarrow>
        (\<exists>before. files (predict_diabetes L (Some m) entry_vars W) predictions_path =
           Some (before @ [map snd vals @ [VStr outcome]])))"
proof -
  let ?outcome = "if c = 1 then ''Diabetic'' else ''Non-Diabetic''"
  let ?W1 = "show_prediction_result ?outcome p1 vals (call_model (call_model W))"
  have keys: "map fst vals = field_names" by (rule validate_inputs_map_fst [OF valid len])
  have d: "distinct (map fst vals)" using keys distinct_field_names by simp
  have row: "lookup_all vals field_names = Inr (map snd vals)"
    using lookup_all_own_keys [OF d] keys by simp
  have body: "predict_try L m entry_vars W =
      (case save_prediction L ?outcome vals ?W1 of (r, vals', W2) \<Rightarrow> (r, W2))"
    by (simp add: predict_try_def valid row cls prob index_simps Let_def)
  have fresh: "''Outcome'' \<notin> fst ` set vals"
    using validate_inputs_keys [OF valid] Outcome_not_a_field by blast
  have we: "write_error ?W1 predictions_path = write_error W predictions_path"
    by (simp add: show_prediction_result_def)
  have sh: "shown ?W1 = shown W @ [ResultWindow ?outcome p1 vals]"
    by (simp add: show_prediction_result_def)
  show ?thesis
  proof (cases "write_error W predictions_path")
    case None
    then have ok: "write_error ?W1 predictions_path = None" using we by simp
    have "shown (predict_diabetes L (Some m) entry_vars W) =
        shown W @ [ResultWindow ?outcome p1 vals]"
      by (simp add: predict_diabetes_def body save_prediction_ok [OF ok] sh)
    moreover have "\<exists>before. files (predict_diabetes L (Some m) entry_vars W) predictions_path =
           Some (before @ [map snd vals @ [VStr ?outcome]])"
      by (simp add: predict_diabetes_def body save_prediction_ok [OF ok]
            dict_set_fresh [OF fresh] del: append_assoc add: append_assoc [symmetric])
    ultimately show ?thesis using None by (intro exI [of _ ?outcome]) simp
  next
    case (Some msg)
    then have bad: "write_error ?W1 predictions_path = Some msg" using we by simp
    have "shown (predict_diabetes L (Some m) entry_vars W) =
        shown W @ [ResultWindow ?outcome p1 vals] @
          [ShowError ''Save Error'' (''Could not save prediction: '' @ msg)]"
      by (simp add: predict_diabetes_def body save_prediction_failed [OF bad] sh)
    then show ?thesis using Some by (intro exI [of _ ?outcome]) simp
  qed
qed

theorem predict_diabetes_outcome_witness:
  "validate_inputs demo_lib entries_example = Inr vector_example \<and>
   length entries_example = length FIELD_RANGES \<and>
   predict model_class0 [map snd vector_example] = Inr [0] \<and>
   predict_proba model_class0 [map snd vector_example] = Inr [[Finite (22 / 25), Finite (3 / 25)]] \<and>
   shown (predict_diabetes demo_lib (Some model_class0) entries_example world0) =
     [ResultWindow ''Non-Diabetic'' (Finite (3 / 25)) vector_example] \<and>
   (\<exists>before. files (predict_diabetes demo_lib (Some model_class0) entries_example world0)
       predictions_path = Some (before @ [map snd vector_example @ [VStr ''Non-Diabetic'']]))"
proof -
  have len: "length entries_example = length FIELD_RANGES"
    by (simp add: entries_example_def FIELD_RANGES_def)
  have cls: "predict model_class0 [map snd vector_example] = Inr [0]"
    by (simp add: model_class0_def)
  have prob: "predict_proba model_class0 [map snd vector_example] =
      Inr [[Finite (22 / 25), Finite (3 / 25)]]"
    by (simp add: model_class0_def)
  have we: "write_error world0 predictions_path = None" by (simp add: world0_def)
  have sh: "shown world0 = []" by (simp add: world0_def)
  from predict_diabetes_outcome [OF validate_entries_example len cls prob, of world0]
  obtain outcome where
    s: "shown (predict_diabetes demo_lib (Some model_class0) entries_example world0) =
       shown world0 @ [ResultWindow outcome (Finite (3 / 25)) vector_example] @
       (case write_error world0 predictions_path of
          None \<Rightarrow> []
        | Some msg \<Rightarrow> [ShowError ''Save Error'' (''Could not save prediction: '' @ msg)])"
    and o1: "outcome = ''Diabetic'' \<longleftrightarrow> (0::int) = 1"
    and o2: "outcome \<noteq> ''Diabetic'' \<longrightarrow> outcome = ''Non-Diabetic''"
    and f: "write_error world0 predictions_path = None \<longrightarrow>
        (\<exists>before. files (predict_diabetes demo_lib (Some model_class0) entries_example world0)
           predictions_path = Some (before @ [map snd vector_example @ [VStr outcome]]))"
    by (elim exE conjE) (rule that, assumption+)
  from o1 o2 have o: "outcome = ''Non-Diabetic''" by simp
  from s have s': "shown (predict_diabetes demo_lib (Some model_class0) entries_example world0) =
     [ResultWindow ''Non-Diabetic'' (Finite (3 / 25)) vector_example]"
    by (simp add: we sh o)
  from f we o have f': "\<exists>before. files (predict_diabetes demo_lib (Some model_class0) entries_example world0)
       predictions_path = Some (before @ [map snd vector_example @ [VStr ''Non-Diabetic'']])"
    by simp
  show ?thesis using validate_entries_example len cls prob s' f' by blast
qed

text \<open>
  Claim C7. \<^verbatim>\<open>save_prediction\<close> writes a header row only when no file exists at the
  path, and appends exactly one data row per call, in call order: two calls in a row
  from an absent file leave one header row followed by the two data rows in the order
  of the calls; on a file that exists the rows go after its content, with no header.
\<close>

theorem save_prediction_appends_in_call_order:
  assumes ok: "write_error W predictions_path = None"
    and first: "save_prediction L outcome1 vals1 W = (r1, vals1', W1)"
    and second: "save_prediction L outcome2 vals2 W1 = (r2, vals2', W2)"
  shows
   "vals1' = dict_set vals1 ''Outcome'' (VStr outcome1) \<and>
    vals2' = dict_set vals2 ''Outcome'' (VStr outcome2) \<and>
    (\<forall>old. files W predictions_path = Some old \<longrightarrow>
       files W1 predictions_path = Some (old @ [map snd vals1']) \<and>
       files W2 predictions_path = Some (old @ [map snd vals1', map snd vals2'])) \<and>
    (files W predictions_path = None \<longrightarrow>
       files W1 predictions_path = Some [map VStr (map fst vals1'), map snd vals1'] \<and>
       files W2 predictions_path =
         Some [map VStr (map fst vals1'), map snd vals1', map snd vals2'])"
proof -
  note s1 = save_prediction_ok [OF ok, of L outcome1 vals1]
  from first s1 have v1: "vals1' = dict_set vals1 ''Outcome'' (VStr outcome1)" by simp
  from first s1 have ok1: "write_error W1 predictions_path = None" using ok by auto
  note s2 = save_prediction_ok [OF ok1, of L outcome2 vals2]
  from second s2 have v2: "vals2' = dict_set vals2 ''Outcome'' (VStr outcome2)" by simp
  have f1: "files W1 predictions_path =
      Some ((case files W predictions_path of None \<Rightarrow> [] | Some old \<Rightarrow> old)
            @ (if files W predictions_path = None then [map VStr (map fst vals1')] else [])
            @ [map snd vals1'])"
    using first s1 v1 by auto
  have f2: "files W2 predictions_path =
      Some ((case files W1 predictions_path of None \<Rightarrow> [] | Some old \<Rightarrow> old)
            @ (if files W1 predictions_path = None then [map VStr (map fst vals2')] else [])
            @ [map snd vals2'])"
    using second s2 v2 by auto
  show ?thesis using v1 v2 f1 f2 by (auto split: option.splits)
qed

theorem save_prediction_appends_in_call_order_witness:
  "write_error world0 predictions_path = None \<and> files world0 predictions_path = None \<and>
   (\<exists>r1 v1 W1 r2 v2 W2.
      save_prediction demo_lib ''Non-Diabetic'' vector_example world0 = (r1, v1, W1) \<and>
      save_prediction demo_lib ''Diabetic'' vector_at_bounds W1 = (r2, v2, W2) \<and>
      files W1 predictions_path =
        Some [map VStr (field_names @ [''Outcome'']),
              map snd vector_example @ [VStr ''Non-Diabetic'']] \<and>
      files W2 predictions_path =
        Some [map VStr (field_names @ [''Outcome'']),
              map snd vector_example @ [VStr ''Non-Diabetic''],
              map snd vector_at_bounds @ [VStr ''Diabetic'']])"
proof -
  have we: "write_error world0 predictions_path = None" by (simp add: world0_def)
  have fe: "files world0 predictions_path = None" by (simp add: world0_def)
  obtain r1 v1 W1 where a: "save_prediction demo_lib ''Non-Diabetic'' vector_example world0 = (r1, v1, W1)"
    by (cases "save_prediction demo_lib ''Non-Diabetic'' vector_example world0")
  obtain r2 v2 W2 where b: "save_prediction demo_lib ''Diabetic'' vector_at_bounds W1 = (r2, v2, W2)"
    by (cases "save_prediction demo_lib ''Diabetic'' vector_at_bounds W1")
  have d1: "dict_set vector_example ''Outcome'' (VStr ''Non-Diabetic'') =
      vector_example @ [(''Outcome'', VStr ''Non-Diabetic'')]"
    by (simp add: vector_example_def)
  have d2: "dict_set vector_at_bounds ''Outcome'' (VStr ''Diabetic'') =
      vector_at_bounds @ [(''Outcome'', VStr ''Diabetic'')]"
    by (simp add: vector_at_bounds_def)
  have k: "map (VStr \<circ> fst) vector_example = map VStr field_names"
    by (simp add: vector_example_def field_names_def FIELD_RANGES_def)
  from save_prediction_appends_in_call_order [OF we a b] fe
  have "files W1 predictions_path =
        Some [map VStr (field_names @ [''Outcome'']),
              map snd vector_example @ [VStr ''Non-Diabetic'']] \<and>
      files W2 predictions_path =
        Some [map VStr (field_names @ [''Outcome'']),
              map snd vector_example @ [VStr ''Non-Diabetic''],
              map snd vector_at_bounds @ [VStr ''Diabetic'']]"
    by (simp add: d1 d2 k)
  with a b we fe show ?thesis by blast
qed




text \<open>
  Claim C10. \<^verbatim>\<open>save_prediction\<close> assigns to the dict of its caller: after every call,
  also one whose write fails, the dict maps \<^verbatim>\<open>'Outcome'\<close> to the outcome string. A
  dict without that key, as every dict that \<^verbatim>\<open>validate_inputs\<close> returns is, has one
  more entry after the call, so it does not stay unchanged.
\<close>

theorem save_prediction_mutates_values:
  "fst (snd (save_prediction L outcome vals W)) = dict_set vals ''Outcome'' (VStr outcome) \<and>
   map_of (fst (snd (save_prediction L outcome vals W))) ''Outcome'' = Some (VStr outcome) \<and>
   (''Outcome'' \<notin> fst ` set vals \<longrightarrow>
      fst (snd (save_prediction L outcome vals W)) = vals @ [(''Outcome'', VStr outcome)] \<and>
      fst (snd (save_prediction L outcome vals W)) \<noteq> vals) \<and>
   (validate_inputs L entry_vars = Inr vals \<longrightarrow> ''Outcome'' \<notin> fst ` set vals)"
proof -
  have v: "fst (snd (save_prediction L outcome vals W)) = dict_set vals ''Outcome'' (VStr outcome)"
    by (cases "write_error W predictions_path")
       (simp_all add: save_prediction_ok save_prediction_failed)
  have k: "''Outcome'' \<notin> fst ` set vals" if "validate_inputs L entry_vars = Inr vals"
    using validate_inputs_keys [OF that] Outcome_not_a_field by blast
  show ?thesis using v k by (simp add: dict_set_lookup dict_set_fresh)
qed

theorem save_prediction_mutates_values_witness:
  "''Outcome'' \<notin> fst ` set vector_example \<and>
   validate_inputs demo_lib entries_example = Inr vector_example \<and>
   fst (snd (save_prediction demo_lib ''Non-Diabetic'' vector_example world0)) =
     vector_example @ [(''Outcome'', VStr ''Non-Diabetic'')] \<and>
   fst (snd (save_prediction demo_lib ''Non-Diabetic'' vector_example world0)) \<noteq> vector_example \<and>
   map_of (fst (snd (save_prediction demo_lib ''Non-Diabetic'' vector_example world0))) ''Outcome'' =
     Some (VStr ''Non-Diabetic'')"
proof -
  have fresh: "''Outcome'' \<notin> fst ` set vector_example"
    by (simp add: vector_example_def)
  from save_prediction_mutates_values
    [of demo_lib "''Non-Diabetic''" vector_example world0 entries_example]
  show ?thesis using fresh validate_entries_example by blast
qed

section \<open>Properties of the batch predictor\<close>

lemma world_upd_simps [simp]:
  "show_dialog d (log_write r W) = W\<lparr>shown := shown W @ [d], logged := logged W @ [r]\<rparr>"
  by (simp add: show_dialog_def log_write_def)

text \<open>
  Claim C6. \<^verbatim>\<open>batch_predict\<close> on a table that lacks one or more of the 8 field columns
  fails as a whole with an error whose message lists exactly the set of the missing
  columns (the required columns that are not columns of the table): the error is logged
  and shown, the model is not called for any row, and no file is written, whatever the
  rows hold.
\<close>

theorem batch_predict_missing_columns:
  assumes chosen: "input_file \<noteq> []"
    and read: "read_csv input_file = Inr data"
    and missing: "\<not> set field_names \<subseteq> set (map fst data)"
  shows
   "batch_predict L (Some m) input_file read_csv save_path W =
      W\<lparr>shown := shown W @
           [ShowError ''Error'' (''Batch prediction failed: Missing required columns: '' @
              str_set L (set field_names - set (map fst data)))],
        logged := logged W @
           [LogError (''Batch prediction error: Missing required columns: '' @
              str_set L (set field_names - set (map fst data)))]\<rparr> \<and>
    set field_names - set (map fst data) \<noteq> {} \<and>
    (c \<in> set field_names - set (map fst data) \<longleftrightarrow>
       c \<in> set field_names \<and> c \<notin> set (map fst data)) \<and>
    predict_calls (batch_predict L (Some m) input_file read_csv save_path W) = predict_calls W \<and>
    files (batch_predict L (Some m) input_file read_csv save_path W) = files W"
proof -
  have n: "\<not> list_all (\<lambda>col. col \<in> set (map fst data)) field_names"
    using missing by (auto simp add: list_all_iff)
  have t: "batch_try L m input_file read_csv save_path W =
      (Inl (ValueError (''Missing required columns: '' @
          str_set L (set field_names - set (map fst data)))), W)"
    using chosen n by (simp add: batch_try_def read Let_def)
  have b: "batch_predict L (Some m) input_file read_csv save_path W =
      W\<lparr>shown := shown W @
           [ShowError ''Error'' (''Batch prediction failed: Missing required columns: '' @
              str_set L (set field_names - set (map fst data)))],
        logged := logged W @
           [LogError (''Batch prediction error: Missing required columns: '' @
              str_set L (set field_names - set (map fst data)))]\<rparr>"
    by (simp add: batch_predict_def t)
  have ne: "set field_names - set (map fst data) \<noteq> {}"
    using missing by auto
  show ?thesis unfolding b using ne by simp
qed

theorem batch_predict_missing_columns_witness:
  "''in.csv'' \<noteq> [] \<and>
   \<not> set field_names \<subseteq> set (map fst frame_missing) \<and>
   set field_names - set (map fst frame_missing) = {''Glucose'', ''Age''} \<and>
   shown (batch_predict demo_lib (Some model_class0) ''in.csv'' (\<lambda>p. Inr frame_missing)
            ''out.csv'' world0) =
     [ShowError ''Error'' (''Batch prediction failed: Missing required columns: '' @
        str_set demo_lib {''Glucose'', ''Age''})] \<and>
   predict_calls (batch_predict demo_lib (Some model_class0) ''in.csv'' (\<lambda>p. Inr frame_missing)
            ''out.csv'' world0) = 0 \<and>
   files (batch_predict demo_lib (Some model_class0) ''in.csv'' (\<lambda>p. Inr frame_missing)
            ''out.csv'' world0) ''out.csv'' = None"
proof -
  have chosen: "''in.csv'' \<noteq> []" by simp
  have d: "set field_names - set (map fst frame_missing) = {''Glucose'', ''Age''}"
    by (auto simp add: field_names_def FIELD_RANGES_def frame_missing_def)
  have missing: "\<not> set field_names \<subseteq> set (map fst frame_missing)"
    using d by auto
  have w: "shown world0 = []" "predict_calls world0 = 0" "files world0 ''out.csv'' = None"
    by (simp_all add: world0_def)
  from batch_predict_missing_columns
    [OF chosen refl missing, of demo_lib model_class0 "''out.csv''" world0 "''Age''"]
  show ?thesis using chosen missing d w by simp
qed

section \<open>Properties of the credential store\<close>

lemma find_None_conv: "(find P xs = None) = (\<forall>x\<in>set xs. \<not> P x)"
  by (induction xs) auto


lemma register_user_success_iff:
  "register_user L db_error users u p e n = (True, ds, users') \<longleftrightarrow>
     fields_ok u p e n \<and> db_error = None \<and>
     (\<forall>r\<in>set users. username_col r \<noteq> u) \<and> (\<forall>r\<in>set users. email_col r \<noteq> e) \<and>
     ds = [ShowInfo ''Success'' ''User registered successfully''] \<and>
     users' = users @ [new_row L u p e n]"
  by (auto simp add: register_user_def fields_ok_def new_row_def hash_password_def
        find_None_conv split: option.splits)

lemma register_user_failure_keeps_store:
  "\<not> fst (register_user L db_error users u p e n) \<Longrightarrow>
   snd (snd (register_user L db_error users u p e n)) = users"
  by (auto simp add: register_user_def split: option.splits if_splits)

lemma sample_emails:
  "validate_email ''alice@example.com''" "validate_email ''bob@example.com''"
  "validate_email ''other@example.com''" "\<not> validate_email ''alice.example.com''"
  by code_simp+

lemma register_alice:
  "register_user L None [] ''alice'' ''password123'' ''alice@example.com'' ''Alice A'' =
     (True, [ShowInfo ''Success'' ''User registered successfully''],
      [new_row L ''alice'' ''password123'' ''alice@example.com'' ''Alice A''])"
  by (simp add: register_user_success_iff fields_ok_def sample_emails)

lemma toy_digest_length: "length (toy_digest s) = 64"
  by (simp add: toy_digest_def)






text \<open>
  Claim C5. \<^verbatim>\<open>register_user\<close> checks, in this order: the four fields are not empty,
  the username has at least 4 characters, the password at least 8, the email matches the
  pattern, the username is not taken, the email is not taken. The first rule that is
  violated decides the message, the result is \<open>False\<close> and the table is unchanged;
  the row is inserted only when all the checks pass.
\<close>

theorem register_user_checks_in_order:
  "(fst (register_user L None users u p e n) \<longleftrightarrow>
      u \<noteq> [] \<and> p \<noteq> [] \<and> e \<noteq> [] \<and> n \<noteq> [] \<and> 4 \<le> length u \<and> 8 \<le> length p \<and>
      validate_email e \<and> (\<forall>r\<in>set users. username_col r \<noteq> u) \<and>
      (\<forall>r\<in>set users. email_col r \<noteq> e)) \<and>
   (\<not> fst (register_user L db_error users u p e n) \<longrightarrow>
      snd (snd (register_user L db_error users u p e n)) = users) \<and>
   (fst (register_user L db_error users u p e n) \<longrightarrow>
      register_user L db_error users u p e n =
        (True, [ShowInfo ''Success'' ''User registered successfully''],
         users @ [\<lparr>username_col = u, password_col = hash_password L p,
                    email_col = e, full_name_col = n\<rparr>])) \<and>
   (u = [] \<or> p = [] \<or> e = [] \<or> n = [] \<longrightarrow>
      register_user L db_error users u p e n =
        (False, [ShowError ''Error'' ''All fields are required''], users)) \<and>
   (u \<noteq> [] \<and> p \<noteq> [] \<and> e \<noteq> [] \<and> n \<noteq> [] \<and> length u < 4 \<longrightarrow>
      register_user L db_error users u p e n =
        (False, [ShowError ''Error'' ''Username must be at least 4 characters long''], users)) \<and>
   (u \<noteq> [] \<and> p \<noteq> [] \<and> e \<noteq> [] \<and> n \<noteq> [] \<and> 4 \<le> length u \<and> length p < 8 \<longrightarrow>
      register_user L db_error users u p e n =
        (False, [ShowError ''Error'' ''Password must be at least 8 characters long''], users)) \<and>
   (u \<noteq> [] \<and> p \<noteq> [] \<and> e \<noteq> [] \<and> n \<noteq> [] \<and> 4 \<le> length u \<and> 8 \<le> length p \<and>
    \<not> validate_email e \<longrightarrow>
      register_user L db_error users u p e n =
        (False, [ShowError ''Error'' ''Invalid email format''], users)) \<and>
   (fields_ok u p e n \<and> (\<exists>r\<in>set users. username_col r = u) \<longrightarrow>
      register_user L None users u p e n =
        (False, [ShowError ''Error'' ''Username already exists''], users)) \<and>
   (fields_ok u p e n \<and> (\<forall>r\<in>set users. username_col r \<noteq> u) \<and>
    (\<exists>r\<in>set users. email_col r = e) \<longrightarrow>
      register_user L None users u p e n =
        (False, [ShowError ''Error'' ''Email already registered''], users))"
proof -
  have c1: "fst (register_user L None users u p e n) \<longleftrightarrow>
      u \<noteq> [] \<and> p \<noteq> [] \<and> e \<noteq> [] \<and> n \<noteq> [] \<and> 4 \<le> length u \<and> 8 \<le> length p \<and>
      validate_email e \<and> (\<forall>r\<in>set users. username_col r \<noteq> u) \<and>
      (\<forall>r\<in>set users. email_col r \<noteq> e)"
    by (auto simp add: register_user_def find_None_conv)
  have c2: "snd (snd (register_user L db_error users u p e n)) = users"
    if "\<not> fst (register_user L db_error users u p e n)"
    using that by (rule register_user_failure_keeps_store)
  have c3: "register_user L db_error users u p e n =
        (True, [ShowInfo ''Success'' ''User registered successfully''],
         users @ [\<lparr>username_col = u, password_col = hash_password L p,
                    email_col = e, full_name_col = n\<rparr>])"
    if "fst (register_user L db_error users u p e n)"
    using that by (auto simp add: register_user_def split: option.splits if_splits)
  have c4: "register_user L db_error users u p e n =
        (False, [ShowError ''Error'' ''All fields are required''], users)"
    if "u = [] \<or> p = [] \<or> e = [] \<or> n = []"
    using that by (auto simp add: register_user_def)
  have c5: "register_user L db_error users u p e n =
        (False, [ShowError ''Error'' ''Username must be at least 4 characters long''], users)"
    if "u \<noteq> [] \<and> p \<noteq> [] \<and> e \<noteq> [] \<and> n \<noteq> [] \<and> length u < 4"
    using that by (simp add: register_user_def)
  have c6: "register_user L db_error users u p e n =
        (False, [ShowError ''Error'' ''Password must be at least 8 characters long''], users)"
    if "u \<noteq> [] \<and> p \<noteq> [] \<and> e \<noteq> [] \<and> n \<noteq> [] \<and> 4 \<le> length u \<and> length p < 8"
    using that by (simp add: register_user_def)
  have c7: "register_user L db_error users u p e n =
        (False, [ShowError ''Error'' ''Invalid email format''], users)"
    if "u \<noteq> [] \<and> p \<noteq> [] \<and> e \<noteq> [] \<and> n \<noteq> [] \<and> 4 \<le> length u \<and> 8 \<le> length p \<and>
        \<not> validate_email e"
    using that by (simp add: register_user_def)
  have c8: "register_user L None users u p e n =
        (False, [ShowError ''Error'' ''Username already exists''], users)"
    if "fields_ok u p e n \<and> (\<exists>r\<in>set users. username_col r = u)"
    using that by (auto simp add: register_user_def fields_ok_def find_None_conv)
  have c9: "register_user L None users u p e n =
        (False, [ShowError ''Error'' ''Email already registered''], users)"
    if "fields_ok u p e n \<and> (\<forall>r\<in>set users. username_col r \<noteq> u) \<and>
        (\<exists>r\<in>set users. email_col r = e)"
    using that by (auto simp add: register_user_def fields_ok_def find_None_conv)
  show ?thesis using c1 c2 c3 c4 c5 c6 c7 c8 c9 by blast
qed

theorem register_user_checks_in_order_witness:
  "fields_ok ''alice'' ''password456'' ''other@example.com'' ''Other O'' \<and>
   register_user demo_lib None users_alice ''alice'' ''password456'' ''other@example.com'' ''Other O'' =
     (False, [ShowError ''Error'' ''Username already exists''], users_alice) \<and>
   register_user demo_lib None users_alice ''alicia'' ''password456'' ''alice@example.com'' ''Other O'' =
     (False, [ShowError ''Error'' ''Email already registered''], users_alice) \<and>
   register_user demo_lib None users_alice ''al'' ''password456'' ''other@example.com'' ''Other O'' =
     (False, [ShowError ''Error'' ''Username must be at least 4 characters long''], users_alice) \<and>
   register_user demo_lib None users_alice ''alicia'' ''pass'' ''other@example.com'' ''Other O'' =
     (False, [ShowError ''Error'' ''Password must be at least 8 characters long''], users_alice) \<and>
   register_user demo_lib None users_alice ''alicia'' ''password456'' ''alice.example.com'' ''Other O'' =
     (False, [ShowError ''Error'' ''Invalid email format''], users_alice) \<and>
   register_user demo_lib None users_alice ''alicia'' ''password456'' ''other@example.com'' [] =
     (False, [ShowError ''Error'' ''All fields are required''], users_alice) \<and>
   fst (register_user demo_lib None users_alice ''alicia'' ''password456'' ''other@example.com'' ''Other O'')"
proof -
  have ok1: "fields_ok ''alice'' ''password456'' ''other@example.com'' ''Other O''"
    and ok2: "fields_ok ''alicia'' ''password456'' ''alice@example.com'' ''Other O''"
    by (simp_all add: fields_ok_def sample_emails)
  have taken: "\<exists>r\<in>set users_alice. username_col r = ''alice''"
    and free: "\<forall>r\<in>set users_alice. username_col r \<noteq> ''alicia''"
    and mail: "\<exists>r\<in>set users_alice. email_col r = ''alice@example.com''"
    and free_mail: "\<forall>r\<in>set users_alice. email_col r \<noteq> ''other@example.com''"
    by (simp_all add: users_alice_def new_row_def)
  note T = register_user_checks_in_order [where L = demo_lib and db_error = None and users = users_alice]
  from T [of "''alice''" "''password456''" "''other@example.com''" "''Other O''"] ok1 taken
  have a: "register_user demo_lib None users_alice ''alice'' ''password456'' ''other@example.com''
      ''Other O'' = (False, [ShowError ''Error'' ''Username already exists''], users_alice)"
    by blast
  from T [of "''alicia''" "''password456''" "''alice@example.com''" "''Other O''"] ok2 free mail
  have b: "register_user demo_lib None users_alice ''alicia'' ''password456'' ''alice@example.com''
      ''Other O'' = (False, [ShowError ''Error'' ''Email already registered''], users_alice)"
    by blast
  from T [of "''al''" "''password456''" "''other@example.com''" "''Other O''"]
  have c: "register_user demo_lib None users_alice ''al'' ''password456'' ''other@example.com''
      ''Other O'' = (False, [ShowError ''Error'' ''Username must be at least 4 characters long''],
        users_alice)"
    by simp
  from T [of "''alicia''" "''pass''" "''other@example.com''" "''Other O''"]
  have d: "register_user demo_lib None users_alice ''alicia'' ''pass'' ''other@example.com''
      ''Other O'' = (False, [ShowError ''Error'' ''Password must be at least 8 characters long''],
        users_alice)"
    by simp
  from T [of "''alicia''" "''password456''" "''alice.example.com''" "''Other O''"]
  have e: "register_user demo_lib None users_alice ''alicia'' ''password456'' ''alice.example.com''
      ''Other O'' = (False, [ShowError ''Error'' ''Invalid email format''], users_alice)"
    using sample_emails by simp
  from T [of "''alicia''" "''password456''" "''other@example.com''" "[]"]
  have f: "register_user demo_lib None users_alice ''alicia'' ''password456'' ''other@example.com''
      [] = (False, [ShowError ''Error'' ''All fields are required''], users_alice)"
    by simp
  from T [of "''alicia''" "''password456''" "''other@example.com''" "''Other O''"]
  have g: "fst (register_user demo_lib None users_alice ''alicia'' ''password456''
      ''other@example.com'' ''Other O'')"
    using sample_emails free free_mail by simp
  show ?thesis using ok1 a b c d e f g by blast
qed

text \<open>
  Claim C8, as amended. For every account that \<^verbatim>\<open>register_user\<close> accepts, the password
  column holds the SHA-256 digest of the password, computed from the password alone:
  there is no salt, so two accounts with the same password hold the same value.
  \<^verbatim>\<open>register_user\<close>, the only operation that writes to the table, preserves that
  every password column is a digest. A digest has 64 characters, so the stored value
  differs from every password that has not 64 characters. The claim as stated (a salted
  hash) fails for two accounts that are registered with the same password.
\<close>

theorem register_user_stores_unsalted_digest:
  "(register_user L db_error users u p e n = (True, ds, users') \<longrightarrow>
      users' = users @ [new_row L u p e n] \<and>
      password_col (last users') = sha256_hexdigest L p) \<and>
   (register_user L db_error users u p e n = (True, ds, users') \<and>
    register_user L db_error2 users' u2 p e2 n2 = (True, ds2, users'') \<longrightarrow>
      password_col (last users'') = password_col (last users')) \<and>
   (stores_digests L users \<longrightarrow>
      stores_digests L (snd (snd (register_user L db_error users u p e n)))) \<and>
   (register_user L db_error users u p e n = (True, ds, users') \<and>
    (\<forall>s. length (sha256_hexdigest L s) = 64) \<and> length p \<noteq> 64 \<longrightarrow>
      password_col (last users') \<noteq> p)"
proof -
  have a: "users' = users @ [new_row L u p e n] \<and>
      password_col (last users') = sha256_hexdigest L p"
    if "register_user L db_error users u p e n = (True, ds, users')"
    using that by (simp add: register_user_success_iff new_row_def)
  have b: "password_col (last users'') = password_col (last users')"
    if "register_user L db_error users u p e n = (True, ds, users') \<and>
        register_user L db_error2 users' u2 p e2 n2 = (True, ds2, users'')"
    using that by (simp add: register_user_success_iff new_row_def)
  have c: "stores_digests L (snd (snd (register_user L db_error users u p e n)))"
    if inv: "stores_digests L users"
  proof (cases "fst (register_user L db_error users u p e n)")
    case False
    then show ?thesis using inv by (simp add: register_user_failure_keeps_store)
  next
    case True
    then obtain ds0 us0 where r: "register_user L db_error users u p e n = (True, ds0, us0)"
      by (cases "register_user L db_error users u p e n") auto
    then have "us0 = users @ [new_row L u p e n]" by (simp add: register_user_success_iff)
    then show ?thesis using inv r
      by (auto simp add: stores_digests_def new_row_def hash_password_def)
  qed
  have d: "password_col (last users') \<noteq> p"
    if "register_user L db_error users u p e n = (True, ds, users') \<and>
        (\<forall>s. length (sha256_hexdigest L s) = 64) \<and> length p \<noteq> 64"
  proof -
    from that have "password_col (last users') = sha256_hexdigest L p"
      by (simp add: register_user_success_iff new_row_def)
    moreover from that have "length (sha256_hexdigest L p) \<noteq> length p" by simp
    ultimately show ?thesis by auto
  qed
  show ?thesis using a b c d by blast
qed

theorem register_user_salted_counterexample:
  "\<forall>L. \<exists>ds1 users1 ds2 users2.
     register_user L None [] ''alice'' ''password123'' ''alice@example.com'' ''Alice A'' =
       (True, ds1, users1) \<and>
     register_user L None users1 ''bobby'' ''password123'' ''bob@example.com'' ''Bob B'' =
       (True, ds2, users2) \<and>
     map username_col users2 = [''alice'', ''bobby''] \<and>
     map password_col users2 =
       [sha256_hexdigest L ''password123'', sha256_hexdigest L ''password123'']"
proof
  fix L
  let ?u1 = "[new_row L ''alice'' ''password123'' ''alice@example.com'' ''Alice A'']"
  have "register_user L None ?u1 ''bobby'' ''password123'' ''bob@example.com'' ''Bob B'' =
       (True, [ShowInfo ''Success'' ''User registered successfully''],
        ?u1 @ [new_row L ''bobby'' ''password123'' ''bob@example.com'' ''Bob B''])"
    by (simp add: register_user_success_iff fields_ok_def sample_emails new_row_def)
  then show "\<exists>ds1 users1 ds2 users2.
     register_user L None [] ''alice'' ''password123'' ''alice@example.com'' ''Alice A'' =
       (True, ds1, users1) \<and>
     register_user L None users1 ''bobby'' ''password123'' ''bob@example.com'' ''Bob B'' =
       (True, ds2, users2) \<and>
     map username_col users2 = [''alice'', ''bobby''] \<and>
     map password_col users2 =
       [sha256_hexdigest L ''password123'', sha256_hexdigest L ''password123'']"
    using register_alice [of L] by (simp add: new_row_def)
qed

theorem register_user_stores_unsalted_digest_witness:
  "register_user demo_lib None [] ''alice'' ''password123'' ''alice@example.com'' ''Alice A'' =
     (True, [ShowInfo ''Success'' ''User registered successfully''], users_alice) \<and>
   password_col (last users_alice) = sha256_hexdigest demo_lib ''password123'' \<and>
   stores_digests demo_lib [] \<and> stores_digests demo_lib users_alice \<and>
   (\<forall>s. length (sha256_hexdigest demo_lib s) = 64) \<and> length ''password123'' \<noteq> 64 \<and>
   password_col (last users_alice) \<noteq> ''password123''"
proof -
  have reg: "register_user demo_lib None [] ''alice'' ''password123'' ''alice@example.com''
      ''Alice A'' = (True, [ShowInfo ''Success'' ''User registered successfully''], users_alice)"
    by (simp add: register_alice users_alice_def)
  have inv: "stores_digests demo_lib []" by (simp add: stores_digests_def)
  have len: "\<forall>s. length (sha256_hexdigest demo_lib s) = 64"
    by (simp add: demo_lib_def toy_digest_length)
  have pl: "length ''password123'' \<noteq> 64" by simp
  note T = register_user_stores_unsalted_digest
    [of demo_lib None "[]" "''alice''" "''password123''" "''alice@example.com''" "''Alice A''"
        "[ShowInfo ''Success'' ''User registered successfully'']" users_alice
        None "''bobby''" "''bob@example.com''" "''Bob B''" "[]" "[]"]
  from T reg have t1: "password_col (last users_alice) = sha256_hexdigest demo_lib ''password123''"
    by blast
  from T inv have "stores_digests demo_lib (snd (snd (register_user demo_lib None []
      ''alice'' ''password123'' ''alice@example.com'' ''Alice A'')))"
    by blast
  then have t3: "stores_digests demo_lib users_alice" by (simp add: reg)
  from T reg len pl have t4: "password_col (last users_alice) \<noteq> ''password123''"
    by blast
  from t1 t3 t4
  have "password_col (last users_alice) = sha256_hexdigest demo_lib ''password123'' \<and>
     stores_digests demo_lib users_alice \<and> password_col (last users_alice) \<noteq> ''password123''"
    by blast
  then show ?thesis using reg inv len pl by blast
qed

end
